theory Spec2Isabelle
  imports Complex_Main "HOL-Library.Multiset"
begin

section \<open>Data model (types.ts)\<close>

text \<open>
  JavaScript numbers are modelled as mathematical reals, without NaN and infinities.
  The geometry of the planner is computed without rounding; the altitudes and the
  statistics that the source rounds to two decimals are computed in binary64
  arithmetic (see there). A GeoJSON position \<open>[x, y]\<close> (\<open>[lng, lat]\<close>) is a pair, a two-point
  LineString is a pair of positions, and a footprint polygon is its single ring.
\<close>

type_synonym position = "real \<times> real"
type_synonym lineString = "position \<times> position"
type_synonym polygon = "position list"

record CameraParams =
  sensorWidth :: real
  sensorHeight :: real
  focalLength :: real
  imageWidth :: real
  imageHeight :: real

datatype altitudeMode = Relative | Agl

record FlightParams =
  altitude :: real
  frontOverlap :: real
  sideOverlap :: real
  speed :: real
  gimbalPitch :: real
  flightDirection :: real
  altitudeMode :: altitudeMode

record Waypoint =
  lat :: real
  lng :: real
  altitude :: real
  heading :: real
  gimbalPitch :: real
  speed :: real

record FilterParams =
  enabled :: bool
  keepStart :: int
  keepEnd :: int

record Stats =
  totalWaypoints :: nat
  flightLines :: nat
  flightTime :: string
  totalDistance :: string
  photoCount :: nat
  dataVolume :: string

record FlightPlanResult =
  waypoints :: "Waypoint list list"
  footprints :: "polygon list"

datatype error = Error string

definition InvalidParameters :: error where
  "InvalidParameters = Error ''Overlap values must be less than 100%.''"

definition NoCoverage :: error where
  "NoCoverage = Error
     ''Could not generate waypoints. The survey area may be too small for the given parameters.''"

section \<open>The geometry library\<close>

text \<open>
  The planner calls the turf library for every geometric primitive. The library is not
  part of the repository, so its functions are parameters of the model, collected in a
  record. \<open>'g\<close> is the type of a Polygon or MultiPolygon geometry.
  \<open>transformRotate\<close> is used by the source both on the survey feature and on single
  points, hence the two fields. \<open>lineLength\<close> is \<open>turf.length\<close>; lengths and
  distances are in meters.
\<close>

record 'g turf =
  centerOfMass :: "'g \<Rightarrow> position"
  transformRotate :: "'g \<Rightarrow> real \<Rightarrow> position \<Rightarrow> 'g"
  transformRotatePoint :: "position \<Rightarrow> real \<Rightarrow> position \<Rightarrow> position"
  bbox :: "'g \<Rightarrow> real \<times> real \<times> real \<times> real"
  lineIntersect :: "lineString \<Rightarrow> 'g \<Rightarrow> position list"
  lengthToDegrees :: "real \<Rightarrow> real"
  lineLength :: "lineString \<Rightarrow> real"
  along :: "lineString \<Rightarrow> real \<Rightarrow> position"
  distance :: "position \<Rightarrow> position \<Rightarrow> real"
  bearing :: "position \<Rightarrow> position \<Rightarrow> real"
  destination :: "position \<Rightarrow> real \<Rightarrow> real \<Rightarrow> position"

section \<open>generateFlightPlan (services/flightPlanner)\<close>

subsection \<open>Steps 1 and 2: footprint and spacings\<close>

text \<open>
  A focal length or image width of zero makes the ground sample distance \<open>Infinity\<close>
  or \<open>NaN\<close> in the source; the model is for camera parameters that are not zero.
\<close>

definition gsd :: "FlightParams \<Rightarrow> CameraParams \<Rightarrow> real" where
  "gsd flightParams cameraParams =
     (FlightParams.altitude flightParams * sensorWidth cameraParams)
       / (focalLength cameraParams * imageWidth cameraParams)"

definition footprintWidth :: "FlightParams \<Rightarrow> CameraParams \<Rightarrow> real" where
  "footprintWidth flightParams cameraParams =
     gsd flightParams cameraParams * imageWidth cameraParams"

definition footprintHeight :: "FlightParams \<Rightarrow> CameraParams \<Rightarrow> real" where
  "footprintHeight flightParams cameraParams =
     gsd flightParams cameraParams * imageHeight cameraParams"

definition distanceAlongTrack :: "FlightParams \<Rightarrow> CameraParams \<Rightarrow> real" where
  "distanceAlongTrack flightParams cameraParams =
     footprintHeight flightParams cameraParams * (1 - frontOverlap flightParams / 100)"

definition distanceSideTrack :: "FlightParams \<Rightarrow> CameraParams \<Rightarrow> real" where
  "distanceSideTrack flightParams cameraParams =
     footprintWidth flightParams cameraParams * (1 - sideOverlap flightParams / 100)"

subsection \<open>Step 5: flight lines across the rotated bounding box\<close>

text \<open>
  The inner loop \<open>for (i = 0; i < coords.length; i += 2)\<close>: a segment is pushed when
  \<open>coords[i+1]\<close> exists (a position is an array, hence truthy whenever it is defined).
\<close>

function pairLoop :: "position list \<Rightarrow> nat \<Rightarrow> lineString list" where
  "pairLoop coords i =
     (if i < length coords
      then (if i + 1 < length coords then [(coords ! i, coords ! (i + 1))] else [])
             @ pairLoop coords (i + 2)
      else [])"
  by pat_completeness auto
termination
  by (relation "measure (\<lambda>(coords, i). length coords - i)") auto

declare pairLoop.simps [simp del]

text \<open>
  The body of the sweep loop for one row. \<open>Array.prototype.sort\<close> is stable, and so is
  \<open>sort_key\<close>; the comparator \<open>a[0] - b[0]\<close> orders by the X coordinate.
\<close>

definition rowSegments :: "'g turf \<Rightarrow> 'g \<Rightarrow> real \<Rightarrow> real \<Rightarrow> real \<Rightarrow> lineString list" where
  "rowSegments t rotatedFeature minX maxX currentY =
     (let line = ((minX, currentY), (maxX, currentY));
          coords = lineIntersect t line rotatedFeature
      in if length coords > 0
         then (if length coords > 1 then pairLoop (sort_key fst coords) 0 else [])
         else [])"

text \<open>
  \<open>while (currentY <= maxY)\<close>, with the array \<open>flightLines\<close> as the accumulator.
  A loop that does not return has the value \<open>None\<close>.
\<close>

partial_function (option) sweepLoop ::
  "'g turf \<Rightarrow> 'g \<Rightarrow> real \<Rightarrow> real \<Rightarrow> real \<Rightarrow> real \<Rightarrow> real \<Rightarrow> lineString list
     \<Rightarrow> lineString list option" where
  "sweepLoop t rotatedFeature minX maxX maxY step currentY acc =
     (if currentY \<le> maxY
      then sweepLoop t rotatedFeature minX maxX maxY step (currentY + step)
             (acc @ rowSegments t rotatedFeature minX maxX currentY)
      else Some acc)"

text \<open>The whole of step 5, from the bounding box of the rotated feature.\<close>

definition sweep :: "'g turf \<Rightarrow> 'g \<Rightarrow> real \<Rightarrow> lineString list option" where
  "sweep t rotatedFeature dSide =
     (case bbox t rotatedFeature of (minX, minY, maxX, maxY) \<Rightarrow>
        sweepLoop t rotatedFeature minX maxX maxY (lengthToDegrees t dSide) minY [])"

subsection \<open>Step 6: waypoints along each flight line\<close>

text \<open>\<open>for (let d = 0; d <= lineLength; d += distanceAlongTrack)\<close>\<close>

partial_function (option) alongLoop ::
  "'g turf \<Rightarrow> lineString \<Rightarrow> real \<Rightarrow> real \<Rightarrow> real \<Rightarrow> position list \<Rightarrow> position list option" where
  "alongLoop t line len dAlong d waypointsOnLine =
     (if d \<le> len
      then alongLoop t line len dAlong (d + dAlong) (waypointsOnLine @ [along t line d])
      else Some waypointsOnLine)"

definition lineWaypoints :: "'g turf \<Rightarrow> real \<Rightarrow> nat \<Rightarrow> lineString \<Rightarrow> position list option" where
  "lineWaypoints t dAlong index line =
     (let len = lineLength t line
      in case alongLoop t line len dAlong 0 [] of
           None \<Rightarrow> None
         | Some stepped \<Rightarrow>
             (let waypointsOnLine =
                    (if len > 0 \<and> distance t (last stepped) (snd line) > 1
                     then stepped @ [snd line] else stepped)
              in Some (if index mod 2 \<noteq> 0 then rev waypointsOnLine else waypointsOnLine)))"

text \<open>\<open>flightLines.forEach((line, index) => ...)\<close>, from a given index on.\<close>

fun waypointsByLineFrom ::
  "'g turf \<Rightarrow> real \<Rightarrow> nat \<Rightarrow> lineString list \<Rightarrow> position list list option" where
  "waypointsByLineFrom t dAlong index [] = Some []"
| "waypointsByLineFrom t dAlong index (line # rest) =
     (case lineWaypoints t dAlong index line of
        None \<Rightarrow> None
      | Some waypointsOnLine \<Rightarrow>
          (case waypointsByLineFrom t dAlong (index + 1) rest of
             None \<Rightarrow> None
           | Some others \<Rightarrow> Some (waypointsOnLine # others)))"

subsection \<open>Step 8: formatted waypoints and footprints\<close>

text \<open>\<open>finalWaypoints[i + 1] || finalWaypoints[i-1] || wp\<close>\<close>

definition nextWp :: "position list \<Rightarrow> nat \<Rightarrow> position" where
  "nextWp finalWaypoints i =
     (if i + 1 < length finalWaypoints then finalWaypoints ! (i + 1)
      else if 1 \<le> i \<and> i - 1 < length finalWaypoints then finalWaypoints ! (i - 1)
      else finalWaypoints ! i)"

definition rawHeading :: "'g turf \<Rightarrow> position list \<Rightarrow> nat \<Rightarrow> real" where
  "rawHeading t finalWaypoints i =
     bearing t (finalWaypoints ! i) (nextWp finalWaypoints i)"

definition footprintPoly :: "'g turf \<Rightarrow> real \<Rightarrow> real \<Rightarrow> position \<Rightarrow> real \<Rightarrow> polygon" where
  "footprintPoly t fpWidth fpHeight coords hdg =
     (let halfAlongTrackM = fpHeight / 2;
          halfAcrossTrackM = fpWidth / 2;
          forwardCenter = destination t coords halfAlongTrackM hdg;
          backwardCenter = destination t coords halfAlongTrackM (hdg - 180);
          tl = destination t forwardCenter halfAcrossTrackM (hdg - 90);
          tr = destination t forwardCenter halfAcrossTrackM (hdg + 90);
          br = destination t backwardCenter halfAcrossTrackM (hdg + 90);
          bl = destination t backwardCenter halfAcrossTrackM (hdg - 90)
      in [tl, tr, br, bl, tl])"

definition formatWaypoint :: "'g turf \<Rightarrow> FlightParams \<Rightarrow> position list \<Rightarrow> nat \<Rightarrow> Waypoint" where
  "formatWaypoint t flightParams finalWaypoints i =
     (let hdg = rawHeading t finalWaypoints i;
          coords = finalWaypoints ! i
      in \<lparr> lat = snd coords,
           lng = fst coords,
           altitude = FlightParams.altitude flightParams,
           heading = (if hdg < 0 then hdg + 360 else hdg),
           gimbalPitch = FlightParams.gimbalPitch flightParams,
           speed = FlightParams.speed flightParams \<rparr>)"

definition formattedWaypoints :: "'g turf \<Rightarrow> FlightParams \<Rightarrow> position list \<Rightarrow> Waypoint list" where
  "formattedWaypoints t flightParams finalWaypoints =
     map (formatWaypoint t flightParams finalWaypoints) [0..<length finalWaypoints]"

definition footprintPolygons ::
  "'g turf \<Rightarrow> real \<Rightarrow> real \<Rightarrow> position list \<Rightarrow> polygon list" where
  "footprintPolygons t fpWidth fpHeight finalWaypoints =
     map (\<lambda>i. footprintPoly t fpWidth fpHeight (finalWaypoints ! i)
                 (rawHeading t finalWaypoints i))
       [0..<length finalWaypoints]"

text \<open>
  \<open>Array.prototype.slice(start, end)\<close> with integer arguments: a negative index counts
  from the end, and both are clamped to the array. \<open>index xs j\<close> is the read \<open>xs[j]\<close>,
  with \<open>None\<close> for \<open>undefined\<close>.
\<close>

definition slice :: "'a list \<Rightarrow> int \<Rightarrow> int \<Rightarrow> 'a list" where
  "slice xs start fin =
     (let len = int (length xs);
          k = (if start < 0 then max (len + start) 0 else min start len);
          final = (if fin < 0 then max (len + fin) 0 else min fin len)
      in take (nat (final - k)) (drop (nat k) xs))"

definition sliceFrom :: "'a list \<Rightarrow> int \<Rightarrow> 'a list" where
  "sliceFrom xs start = slice xs start (int (length xs))"

definition index :: "'a list \<Rightarrow> int \<Rightarrow> 'a option" where
  "index xs j = (if 0 \<le> j \<and> j < int (length xs) then Some (xs ! nat j) else None)"

text \<open>Re-structuring the formatted waypoints into lines.\<close>

fun restructure :: "Waypoint list \<Rightarrow> nat \<Rightarrow> position list list \<Rightarrow> Waypoint list list" where
  "restructure formatted currentIndex [] = []"
| "restructure formatted currentIndex (line # rest) =
     slice formatted (int currentIndex) (int (currentIndex + length line))
       # restructure formatted (currentIndex + length line) rest"

subsection \<open>The planner\<close>

text \<open>
  The result is \<open>None\<close> when the source does not return, \<open>Some (Inl e)\<close> when it throws
  \<open>e\<close>, and \<open>Some (Inr plan)\<close> when it returns \<open>plan\<close>.
\<close>

definition generateFlightPlan ::
  "'g turf \<Rightarrow> 'g \<Rightarrow> FlightParams \<Rightarrow> CameraParams \<Rightarrow> (error + FlightPlanResult) option" where
  "generateFlightPlan t geometry flightParams cameraParams =
     (let fpWidth = footprintWidth flightParams cameraParams;
          fpHeight = footprintHeight flightParams cameraParams;
          dAlong = distanceAlongTrack flightParams cameraParams;
          dSide = distanceSideTrack flightParams cameraParams
      in if dSide \<le> 0 \<or> dAlong \<le> 0 then Some (Inl InvalidParameters)
         else
           (let brg = flightDirection flightParams;
                center = centerOfMass t geometry;
                rotatedFeature = transformRotate t geometry (- brg) center
            in  (case sweep t rotatedFeature dSide of
                    None \<Rightarrow> None
                  | Some flightLineSegs \<Rightarrow>
                      (case waypointsByLineFrom t dAlong 0 flightLineSegs of
                         None \<Rightarrow> None
                       | Some waypointsByLine \<Rightarrow>
                           (let allWaypoints = concat waypointsByLine;
                                finalWaypoints =
                                  map (\<lambda>wp. transformRotatePoint t wp brg center) allWaypoints
                            in if length finalWaypoints = 0 then Some (Inl NoCoverage)
                               else Some (Inr
                                 \<lparr> waypoints =
                                     restructure
                                       (formattedWaypoints t flightParams finalWaypoints)
                                       0 waypointsByLine,
                                   footprints =
                                     footprintPolygons t fpWidth fpHeight finalWaypoints \<rparr>))))))"

section \<open>getElevations (services/elevationService)\<close>

text \<open>
  The answer of the elevation service to one request. \<open>NetworkError\<close> stands for
  anything thrown inside the \<open>try\<close> block (by \<open>fetch\<close> or by \<open>response.json()\<close>),
  \<open>HttpError\<close> for a response that is not OK, \<open>Body None\<close> for a payload without an
  \<open>elevation\<close> array and \<open>Body (Some es)\<close> for a payload with \<open>elevation = es\<close>, an
  entry being \<open>None\<close> for \<open>null\<close>. The service is a parameter: a function of the
  start index of the batch and of the batch.
\<close>

datatype fetchResult = NetworkError | HttpError | Body "real option list option"

definition BATCH_SIZE :: nat where
  "BATCH_SIZE = 50"

text \<open>
  \<open>data.elevation.forEach((elevation, index) => allElevations[i + index] = elevation)\<close>.
  The write is inside the array: it happens only when the payload has as many entries
  as the batch.
\<close>

fun storeBatch :: "real option list \<Rightarrow> nat \<Rightarrow> nat \<Rightarrow> real option list \<Rightarrow> real option list" where
  "storeBatch allElevations i idx [] = allElevations"
| "storeBatch allElevations i idx (elevation # rest) =
     storeBatch (allElevations[i + idx := elevation]) i (idx + 1) rest"

text \<open>
  \<open>for (let i = 0; i < waypoints.length; i += BATCH_SIZE)\<close>; each \<open>continue\<close> and the
  \<open>catch\<close> block go on to the next batch with \<open>allElevations\<close> as it is.
\<close>

function getElevationsLoop ::
  "(nat \<Rightarrow> Waypoint list \<Rightarrow> fetchResult) \<Rightarrow> Waypoint list \<Rightarrow> nat \<Rightarrow> real option list
     \<Rightarrow> real option list" where
  "getElevationsLoop fetch wps i allElevations =
     (if i < length wps
      then getElevationsLoop fetch wps (i + BATCH_SIZE)
             (let batch = slice wps (int i) (int (i + BATCH_SIZE))
              in case fetch i batch of
                   NetworkError \<Rightarrow> allElevations
                 | HttpError \<Rightarrow> allElevations
                 | Body None \<Rightarrow> allElevations
                 | Body (Some elevation) \<Rightarrow>
                     if length elevation \<noteq> length batch then allElevations
                     else storeBatch allElevations i 0 elevation)
      else allElevations)"
  by pat_completeness auto
termination
  by (relation "measure (\<lambda>(fetch, wps, i, allElevations). length wps - i)")
     (auto simp: BATCH_SIZE_def)

declare getElevationsLoop.simps [simp del]

definition getElevations ::
  "(nat \<Rightarrow> Waypoint list \<Rightarrow> fetchResult) \<Rightarrow> Waypoint list \<Rightarrow> real option list" where
  "getElevations fetch wps =
     (if length wps = 0 then []
      else getElevationsLoop fetch wps 0 (replicate (length wps) None))"

section \<open>Binary64 arithmetic\<close>

text \<open>
  Where the source shows a number with two decimals, the rounding of its arithmetic
  decides the digits, so there each \<open>+\<close>, \<open>*\<close> and \<open>/\<close> of the source is the exact
  result rounded to the nearest binary64 number, a tie going to the even significand,
  as IEEE 754 has it. A number stays a real: the value of the double. Results that
  overflow the binary64 range are not modelled.

  \<open>ilog2 n\<close> is the position of the leading bit of \<open>n\<close>, \<open>exponent x\<close> the binary
  exponent of \<open>x\<close>, and the spacing of the binary64 numbers around \<open>x\<close> is
  \<open>2 ^ (exponent x - 52)\<close>, down to \<open>2 ^ (-1074)\<close> for the subnormal numbers.
\<close>

fun ilog2 :: "nat \<Rightarrow> nat" where
  "ilog2 n = (if n < 2 then 0 else Suc (ilog2 (n div 2)))"

declare ilog2.simps [simp del]

definition exponent :: "real \<Rightarrow> int" where
  "exponent x =
     (if 1 \<le> \<bar>x\<bar> then int (ilog2 (nat \<lfloor>\<bar>x\<bar>\<rfloor>))
      else if nat \<lceil>1 / \<bar>x\<bar>\<rceil> \<le> 1 then 0
      else - int (Suc (ilog2 (nat \<lceil>1 / \<bar>x\<bar>\<rceil> - 1))))"

definition pow2 :: "int \<Rightarrow> real" where
  "pow2 k = (if 0 \<le> k then 2 ^ nat k else 1 / 2 ^ nat (- k))"

definition roundHalfEven :: "real \<Rightarrow> int" where
  "roundHalfEven y =
     (let f = \<lfloor>y\<rfloor>
      in if y - of_int f < 1 / 2 then f
         else if 1 / 2 < y - of_int f then f + 1
         else if even f then f else f + 1)"

definition binary64 :: "real \<Rightarrow> real" where
  "binary64 x =
     (if x = 0 then 0
      else (let ulp = pow2 (max (exponent x) (- 1022) - 52)
            in of_int (roundHalfEven (x / ulp)) * ulp))"

section \<open>Rendering numbers\<close>

text \<open>
  \<open>Number.prototype.toString\<close> on integers and \<open>toFixed(2)\<close>, for magnitudes below
  \<open>10^21\<close> (from there on JavaScript switches to exponent notation). \<open>toFixed\<close> rounds
  the magnitude of the exact value of the double to the nearest hundredth, a tie going
  up, and keeps the sign.
\<close>

definition digitChar :: "nat \<Rightarrow> char" where
  "digitChar n = ''0123456789'' ! n"

fun natToString :: "nat \<Rightarrow> string" where
  "natToString n =
     (if n < 10 then [digitChar n] else natToString (n div 10) @ [digitChar (n mod 10)])"

declare natToString.simps [simp del]

definition intToString :: "int \<Rightarrow> string" where
  "intToString i = (if i < 0 then ''-'' @ natToString (nat (- i)) else natToString (nat i))"

definition padStart2 :: "string \<Rightarrow> string" where
  "padStart2 str = replicate (2 - length str) (CHR ''0'') @ str"

definition hundredths :: "real \<Rightarrow> nat" where
  "hundredths x = nat \<lfloor>\<bar>x\<bar> * 100 + 1 / 2\<rfloor>"

definition toFixed2 :: "real \<Rightarrow> string" where
  "toFixed2 x =
     (let n = hundredths x;
          m = natToString (n div 100) @ ''.'' @ padStart2 (natToString (n mod 100))
      in if x < 0 then ''-'' @ m else m)"

text \<open>\<open>Number(x.toFixed(2))\<close>: the double nearest to the decimal that \<open>toFixed\<close> prints.\<close>

definition toFixed2Number :: "real \<Rightarrow> real" where
  "toFixed2Number x =
     binary64 (if x < 0 then - (real (hundredths x) / 100) else real (hundredths x) / 100)"

text \<open>
  The remainder operator \<open>%\<close>: the quotient is truncated towards zero. The remainder
  of two doubles is a double, so nothing is rounded.
\<close>

definition jsRemainder :: "real \<Rightarrow> real \<Rightarrow> real" where
  "jsRemainder x y =
     x - y * of_int (if x / y < 0 then \<lceil>x / y\<rceil> else \<lfloor>x / y\<rfloor>)"

section \<open>The application state and its effects (App)\<close>

record AppState =
  flightParams :: FlightParams
  cameraParams :: CameraParams
  filterParams :: FilterParams
  waypoints :: "Waypoint list"
  footprints :: "polygon list option"
  originalWaypoints :: "Waypoint list list"
  originalFootprints :: "polygon list option"
  stats :: "Stats option"

subsection \<open>Mission statistics\<close>

definition totalDistanceOf :: "'g turf \<Rightarrow> Waypoint list \<Rightarrow> real" where
  "totalDistanceOf t wps =
     (if length wps > 1
      then foldl (\<lambda>acc i. binary64 (acc
                    + distance t (lng (wps ! i), lat (wps ! i))
                        (lng (wps ! (i + 1)), lat (wps ! (i + 1)))))
             0 [0..<length wps - 1]
      else 0)"

text \<open>
  The \<open>MM:SS\<close> string. A speed of zero makes the flight time \<open>Infinity\<close> or \<open>NaN\<close> in
  the source, which are not reals: their renderings are written out.
\<close>

definition flightTimeOf :: "real \<Rightarrow> real \<Rightarrow> string" where
  "flightTimeOf meters spd =
     (if spd = 0
      then (if meters = 0 then ''NaN:NaN''
            else if meters > 0 then ''Infinity:NaN'' else ''-Infinity:NaN'')
      else (let flightTimeSeconds = binary64 (meters / spd);
                minutes = \<lfloor>binary64 (flightTimeSeconds / 60)\<rfloor>;
                seconds = \<lfloor>jsRemainder flightTimeSeconds 60\<rfloor>
            in padStart2 (intToString minutes) @ '':'' @ padStart2 (intToString seconds)))"

text \<open>The effect that recomputes the statistics; \<open>None\<close> is \<open>setStats(null)\<close>.\<close>

definition statsEffect :: "'g turf \<Rightarrow> AppState \<Rightarrow> AppState" where
  "statsEffect t s =
     (if length (AppState.waypoints s) = 0 \<or> length (originalWaypoints s) = 0
      then s\<lparr>stats := None\<rparr>
      else
        (let meters = totalDistanceOf t (AppState.waypoints s);
             count = length (AppState.waypoints s);
             totalPixels = binary64 (binary64 (real count * imageWidth (cameraParams s))
                                       * imageHeight (cameraParams s))
         in s\<lparr>stats := Some
              \<lparr> totalWaypoints = length (AppState.waypoints s),
                flightLines = length (originalWaypoints s),
                flightTime = flightTimeOf meters (FlightParams.speed (flightParams s)),
                totalDistance = toFixed2 (binary64 (meters / 1000)),
                photoCount = count,
                dataVolume = toFixed2 (binary64 (totalPixels / 1000000000)) \<rparr>\<rparr>))"

subsection \<open>Filtering\<close>

text \<open>
  The footprints pushed by one of the \<open>for\<close> loops: those of the given indices that
  exist in \<open>originalFootprints.features\<close>.
\<close>

definition pushExisting :: "polygon list \<Rightarrow> int list \<Rightarrow> polygon list" where
  "pushExisting features js =
     concat (map (\<lambda>j. case index features j of None \<Rightarrow> [] | Some f \<Rightarrow> [f]) js)"

text \<open>
  \<open>originalWaypoints.forEach(line => ...)\<close>, with \<open>flatWaypointIndex\<close> and the two arrays
  being filled as the state of the loop.
\<close>

fun filterLoop ::
  "FilterParams \<Rightarrow> polygon list \<Rightarrow> int \<Rightarrow> Waypoint list list
     \<Rightarrow> Waypoint list \<times> polygon list \<Rightarrow> Waypoint list \<times> polygon list" where
  "filterLoop fp features flatWaypointIndex [] acc = acc"
| "filterLoop fp features flatWaypointIndex (line # rest) (newWps, newFps) =
     (let lineLen = int (length line)
      in filterLoop fp features (flatWaypointIndex + lineLen) rest
           (if lineLen \<le> keepStart fp + keepEnd fp
            then (newWps @ line,
                  newFps @ pushExisting features
                             (map (\<lambda>i. flatWaypointIndex + i) [0..lineLen - 1]))
            else (newWps @ slice line 0 (keepStart fp) @ sliceFrom line (lineLen - keepEnd fp),
                  newFps
                    @ pushExisting features
                        (map (\<lambda>i. flatWaypointIndex + i) [0..keepStart fp - 1])
                    @ pushExisting features
                        (map (\<lambda>i. flatWaypointIndex + (lineLen - keepEnd fp + i))
                           [0..keepEnd fp - 1]))))"

text \<open>
  The effect that recomputes the active view. The first test of the source,
  \<open>!originalWaypoints.length || !originalFootprints\<close>, is the first two branches.
\<close>

definition filterEffect :: "AppState \<Rightarrow> AppState" where
  "filterEffect s =
     (case originalFootprints s of
        None \<Rightarrow> s\<lparr>AppState.waypoints := [], AppState.footprints := None\<rparr>
      | Some features \<Rightarrow>
          if length (originalWaypoints s) = 0
          then s\<lparr>AppState.waypoints := [], AppState.footprints := None\<rparr>
          else if \<not> enabled (filterParams s)
          then s\<lparr>AppState.waypoints := concat (originalWaypoints s),
                 AppState.footprints := originalFootprints s\<rparr>
          else (case filterLoop (filterParams s) features 0 (originalWaypoints s) ([], []) of
                  (newFilteredWaypoints, newFilteredFootprints) \<Rightarrow>
                    s\<lparr>AppState.waypoints := newFilteredWaypoints,
                      AppState.footprints := Some newFilteredFootprints\<rparr>))"

subsection \<open>Terrain data\<close>

text \<open>
  The body of \<open>line.map(wp => ...)\<close> for the waypoint read at \<open>waypointIndex\<close>. An index
  outside \<open>elevations\<close> reads \<open>undefined\<close>, which is not \<open>null\<close>, and the sum with it is
  \<open>NaN\<close>: that altitude is no real, and the result is \<open>None\<close>.
\<close>

definition mergeWaypoint :: "real option list \<Rightarrow> real \<Rightarrow> nat \<Rightarrow> Waypoint \<Rightarrow> Waypoint option" where
  "mergeWaypoint elevations alt waypointIndex wp =
     (case index elevations (int waypointIndex) of
        None \<Rightarrow> None
      | Some None \<Rightarrow> Some wp
      | Some (Some elevation) \<Rightarrow>
          Some (wp\<lparr>Waypoint.altitude := toFixed2Number (binary64 (elevation + alt))\<rparr>))"

fun mergeLine ::
  "real option list \<Rightarrow> real \<Rightarrow> nat \<Rightarrow> Waypoint list \<Rightarrow> Waypoint list option" where
  "mergeLine elevations alt waypointIndex [] = Some []"
| "mergeLine elevations alt waypointIndex (wp # rest) =
     (case mergeWaypoint elevations alt waypointIndex wp of
        None \<Rightarrow> None
      | Some wp' \<Rightarrow>
          (case mergeLine elevations alt (waypointIndex + 1) rest of
             None \<Rightarrow> None
           | Some rest' \<Rightarrow> Some (wp' # rest')))"

fun mergeLines ::
  "real option list \<Rightarrow> real \<Rightarrow> nat \<Rightarrow> Waypoint list list \<Rightarrow> Waypoint list list option" where
  "mergeLines elevations alt waypointIndex [] = Some []"
| "mergeLines elevations alt waypointIndex (line # rest) =
     (case mergeLine elevations alt waypointIndex line of
        None \<Rightarrow> None
      | Some line' \<Rightarrow>
          (case mergeLines elevations alt (waypointIndex + length line) rest of
             None \<Rightarrow> None
           | Some rest' \<Rightarrow> Some (line' # rest')))"

text \<open>
  \<open>handleFetchTerrainData\<close>: without waypoints only an error message is set, which is
  not part of the modelled state.
\<close>

definition handleFetchTerrainData ::
  "(nat \<Rightarrow> Waypoint list \<Rightarrow> fetchResult) \<Rightarrow> AppState \<Rightarrow> AppState option" where
  "handleFetchTerrainData fetch s =
     (if length (concat (originalWaypoints s)) = 0 then Some s
      else
        (let flatWaypoints = concat (originalWaypoints s);
             elevations = getElevations fetch flatWaypoints
         in case mergeLines elevations (FlightParams.altitude (flightParams s)) 0
                   (originalWaypoints s) of
              None \<Rightarrow> None
            | Some newOriginalWaypoints \<Rightarrow>
                Some (s\<lparr>originalWaypoints := newOriginalWaypoints\<rparr>)))"

section \<open>Notions of the specification\<close>

text \<open>
  The number of values \<open>start, start + step, start + 2 * step, ...\<close> that do not
  exceed \<open>bound\<close>, for a positive step.
\<close>

definition stepCount :: "real \<Rightarrow> real \<Rightarrow> real \<Rightarrow> nat" where
  "stepCount start bound step =
     (if start \<le> bound then nat \<lfloor>(bound - start) / step\<rfloor> + 1 else 0)"

text \<open>Pairing 1st with 2nd, 3rd with 4th, ...; an unpaired last element is dropped.\<close>

fun consecutivePairs :: "'a list \<Rightarrow> ('a \<times> 'a) list" where
  "consecutivePairs (a # b # rest) = (a, b) # consecutivePairs rest"
| "consecutivePairs _ = []"

text \<open>The intersections of the row at \<open>y\<close> with the rotated region, by ascending X.\<close>

definition sortedIntersections :: "'g turf \<Rightarrow> 'g \<Rightarrow> real \<Rightarrow> real \<Rightarrow> real \<Rightarrow> position list" where
  "sortedIntersections t rotatedFeature minX maxX y =
     sort_key fst (lineIntersect t ((minX, y), (maxX, y)) rotatedFeature)"

text \<open>
  The points at distances \<open>0, d, 2d, ...\<close> up to the length of the segment, and the same
  with the endpoint appended when the last of them is more than a meter from it.
\<close>

definition steppedPoints :: "'g turf \<Rightarrow> real \<Rightarrow> lineString \<Rightarrow> position list" where
  "steppedPoints t d line =
     map (\<lambda>k. along t line (real k * d)) [0..<stepCount 0 (lineLength t line) d]"

definition segmentPoints :: "'g turf \<Rightarrow> real \<Rightarrow> lineString \<Rightarrow> position list" where
  "segmentPoints t d line =
     (if distance t (last (steppedPoints t d line)) (snd line) > 1
      then steppedPoints t d line @ [snd line]
      else steppedPoints t d line)"

definition positionOf :: "Waypoint \<Rightarrow> position" where
  "positionOf wp = (lng wp, lat wp)"

text \<open>An angle in degrees brought into \<open>[0, 360)\<close>.\<close>

definition normalize360 :: "real \<Rightarrow> real" where
  "normalize360 x = x - 360 * of_int \<lfloor>x / 360\<rfloor>"

section \<open>Concrete inputs\<close>

text \<open>
  A small planar stand-in for the geometry library, on which the planner can be run:
  a region is an axis-parallel box \<open>(minX, minY, maxX, maxY)\<close>, one degree is 100000
  meters, nothing is rotated (the flight direction is 0), and bearings and destinations
  are those of the four compass directions. On the equator and on a meridian the
  bearings are those of the library itself.
\<close>

type_synonym box = "real \<times> real \<times> real \<times> real"

definition planarBearing :: "position \<Rightarrow> position \<Rightarrow> real" where
  "planarBearing p q =
     (if fst p < fst q then 90 else if fst q < fst p then - 90
      else if snd p \<le> snd q then 0 else 180)"

definition planarDestination :: "position \<Rightarrow> real \<Rightarrow> real \<Rightarrow> position" where
  "planarDestination p m b =
     (if b = 90 \<or> b = - 270 then (fst p + m / 100000, snd p)
      else if b = - 90 \<or> b = 270 then (fst p - m / 100000, snd p)
      else if b = 180 \<or> b = - 180 then (fst p, snd p - m / 100000)
      else (fst p, snd p + m / 100000))"

definition planarTurf :: "box turf" where
  "planarTurf =
     \<lparr> centerOfMass = (\<lambda>(a, b, c, d). ((a + c) / 2, (b + d) / 2)),
       transformRotate = (\<lambda>g angle pivot. g),
       transformRotatePoint = (\<lambda>p angle pivot. p),
       bbox = (\<lambda>g. g),
       lineIntersect = (\<lambda>line (a, b, c, d).
          if b \<le> snd (fst line) \<and> snd (fst line) \<le> d
          then [(c, snd (fst line)), (a, snd (fst line))] else []),
       lengthToDegrees = (\<lambda>m. m / 100000),
       lineLength = (\<lambda>line. \<bar>fst (snd line) - fst (fst line)\<bar> * 100000),
       along = (\<lambda>line m. (fst (fst line) + m / 100000, snd (fst line))),
       distance = (\<lambda>p q. (\<bar>fst q - fst p\<bar> + \<bar>snd q - snd p\<bar>) * 100000),
       bearing = planarBearing,
       destination = planarDestination \<rparr>"

definition sampleCamera :: CameraParams where
  "sampleCamera = \<lparr> sensorWidth = 10, sensorHeight = 7.5, focalLength = 10,
                     imageWidth = 4000, imageHeight = 3000 \<rparr>"

text \<open>The flight parameters the application starts with.\<close>

definition sampleFlight :: FlightParams where
  "sampleFlight = \<lparr> FlightParams.altitude = 100, frontOverlap = 80, sideOverlap = 70,
                     FlightParams.speed = 10, FlightParams.gimbalPitch = - 90,
                     flightDirection = 0, altitudeMode = Relative \<rparr>"

text \<open>A square of 30 by 30 meters, its two flight lines, and the plan for it.\<close>

definition sampleBox :: box where
  "sampleBox = (0, 0, 3 / 10000, 3 / 10000)"

definition sampleLines :: "lineString list" where
  "sampleLines = [((0, 0), (3 / 10000, 0)), ((0, 3 / 10000), (3 / 10000, 3 / 10000))]"

definition sampleByLine :: "position list list" where
  "sampleByLine = [[(0, 0), (3 / 20000, 0), (3 / 10000, 0)],
                   [(3 / 10000, 3 / 10000), (3 / 20000, 3 / 10000), (0, 3 / 10000)]]"

definition samplePlan :: FlightPlanResult where
  "samplePlan =
     \<lparr> FlightPlanResult.waypoints =
         restructure (formattedWaypoints planarTurf sampleFlight (concat sampleByLine))
           0 sampleByLine,
       footprints = footprintPolygons planarTurf 100 75 (concat sampleByLine) \<rparr>"

text \<open>
  A line filtered, and the flattened positions kept for lines of the given lengths
  starting at \<open>offset\<close>.
\<close>

definition keepEnds :: "int \<Rightarrow> int \<Rightarrow> 'a list \<Rightarrow> 'a list" where
  "keepEnds ks ke line =
     (if int (length line) \<le> ks + ke then line
      else take (nat ks) line @ drop (length line - nat ke) line)"

fun keptPositions :: "int \<Rightarrow> int \<Rightarrow> nat \<Rightarrow> nat list \<Rightarrow> nat list" where
  "keptPositions ks ke offset [] = []"
| "keptPositions ks ke offset (n # ns) =
     (if int n \<le> ks + ke then [offset..<offset + n]
      else [offset..<offset + nat ks] @ [offset + n - nat ke..<offset + n])
       @ keptPositions ks ke (offset + n) ns"

text \<open>A state holding the sample plan, with one waypoint kept at each end of a line.\<close>

definition sampleState :: AppState where
  "sampleState =
     \<lparr> flightParams = sampleFlight, cameraParams = sampleCamera,
       filterParams = \<lparr> enabled = True, keepStart = 1, keepEnd = 1 \<rparr>,
       AppState.waypoints = [], AppState.footprints = None,
       originalWaypoints = FlightPlanResult.waypoints samplePlan,
       originalFootprints = Some (FlightPlanResult.footprints samplePlan),
       stats = None \<rparr>"

text \<open>
  What the batch starting at \<open>start\<close> contributes: its payload when the request
  succeeded with one entry per position, unknown entries otherwise.
\<close>

definition batchElevations ::
  "(nat \<Rightarrow> Waypoint list \<Rightarrow> fetchResult) \<Rightarrow> Waypoint list \<Rightarrow> nat \<Rightarrow> real option list" where
  "batchElevations fetch wps start =
     (let batch = take 50 (drop start wps)
      in case fetch start batch of
           Body (Some es) \<Rightarrow>
             if length es = length batch then es else replicate (length batch) None
         | _ \<Rightarrow> replicate (length batch) None)"

text \<open>One round of the loop of getElevations: the array after the batch at \<open>i\<close>.\<close>

definition afterBatch ::
  "(nat \<Rightarrow> Waypoint list \<Rightarrow> fetchResult) \<Rightarrow> Waypoint list \<Rightarrow> nat \<Rightarrow> real option list
     \<Rightarrow> real option list" where
  "afterBatch fetch wps i a =
     (let batch = slice wps (int i) (int (i + BATCH_SIZE))
      in case fetch i batch of
           NetworkError \<Rightarrow> a
         | HttpError \<Rightarrow> a
         | Body None \<Rightarrow> a
         | Body (Some elevation) \<Rightarrow>
             if length elevation \<noteq> length batch then a
             else storeBatch a i 0 elevation)"

text \<open>An elevation service that fails for the first batch and answers 12 afterwards.\<close>

definition sampleWaypoint :: Waypoint where
  "sampleWaypoint = \<lparr> lat = 0, lng = 0, Waypoint.altitude = 100, heading = 0,
                       Waypoint.gimbalPitch = - 90, Waypoint.speed = 10 \<rparr>"

definition sampleFetch :: "nat \<Rightarrow> Waypoint list \<Rightarrow> fetchResult" where
  "sampleFetch i batch =
     (if i = 0 then NetworkError else Body (Some (replicate (length batch) (Some 12))))"

text \<open>A waypoint merged with its elevation sample.\<close>

fun mergedWaypoint :: "real option \<Rightarrow> real \<Rightarrow> Waypoint \<Rightarrow> Waypoint" where
  "mergedWaypoint None alt wp = wp"
| "mergedWaypoint (Some e) alt wp =
     wp\<lparr>Waypoint.altitude := toFixed2Number (binary64 (e + alt))\<rparr>"

text \<open>An elevation service for the six waypoints of the sample plan.\<close>

definition sampleTerrain :: "nat \<Rightarrow> Waypoint list \<Rightarrow> fetchResult" where
  "sampleTerrain i batch =
     Body (Some [Some (49 / 4), None, Some 7, None, None, Some (- (7 / 2))])"

text \<open>
  The sum of the distances between consecutive waypoints, in meters, added up from the
  first pair on in binary64 arithmetic.
\<close>

definition pathLength :: "'g turf \<Rightarrow> Waypoint list \<Rightarrow> real" where
  "pathLength t wps =
     foldl (\<lambda>acc (a, b). binary64 (acc + distance t (positionOf a) (positionOf b)))
       0 (zip wps (tl wps))"

text \<open>A state with two active waypoints 150 meters apart.\<close>

definition sampleActive :: "Waypoint list" where
  "sampleActive = [sampleWaypoint, sampleWaypoint\<lparr>lng := 3 / 2000\<rparr>]"

definition statsState :: AppState where
  "statsState = sampleState\<lparr>AppState.waypoints := sampleActive\<rparr>"

text \<open>
  A state with three active waypoints 75 meters apart, flown at the double nearest to
  0.1 meters per second, with images of 5000 by 3000 pixels.
\<close>

definition tieState :: AppState where
  "tieState = sampleState
     \<lparr> flightParams := sampleFlight\<lparr>FlightParams.speed := 3602879701896397 / 36028797018963968\<rparr>,
       cameraParams := sampleCamera\<lparr>imageWidth := 5000, imageHeight := 3000\<rparr>,
       AppState.waypoints := [sampleWaypoint, sampleWaypoint\<lparr>lng := 3 / 4000\<rparr>,
                              sampleWaypoint\<lparr>lng := 3 / 2000\<rparr>] \<rparr>"

section \<open>The loops return\<close>

lemma stepCount_0: "0 < step \<Longrightarrow> stepCount start bound step = 0 \<longleftrightarrow> bound < start"
  by (simp add: stepCount_def)

lemma stepCount_Suc:
  assumes "0 < step" and "start \<le> bound"
  shows "stepCount start bound step = Suc (stepCount (start + step) bound step)"
proof (cases "start + step \<le> bound")
  case True
  have "(bound - start) / step = (bound - (start + step)) / step + 1"
    using assms by (simp add: field_simps)
  moreover have "0 \<le> (bound - (start + step)) / step"
    using True assms by simp
  ultimately show ?thesis
    using True assms by (simp add: stepCount_def nat_add_distrib)
next
  case False
  then have "(bound - start) / step < 1" using assms by (simp add: field_simps)
  moreover have "0 \<le> (bound - start) / step" using assms by simp
  ultimately have "\<lfloor>(bound - start) / step\<rfloor> = 0" by linarith
  then show ?thesis using False assms by (simp add: stepCount_def)
qed

lemma stepCount_less:
  assumes "0 < step"
  shows "k < stepCount start bound step \<longleftrightarrow> start + real k * step \<le> bound"
proof (cases "start \<le> bound")
  case False
  have "0 \<le> real k * step" using assms by simp
  then show ?thesis using False by (simp add: stepCount_def)
next
  case True
  then have nn: "0 \<le> (bound - start) / step" using assms by simp
  have "k < stepCount start bound step \<longleftrightarrow> int k \<le> \<lfloor>(bound - start) / step\<rfloor>"
    using True nn by (simp add: stepCount_def) linarith
  also have "\<dots> \<longleftrightarrow> real k \<le> (bound - start) / step"
    by (simp add: le_floor_iff)
  also have "\<dots> \<longleftrightarrow> start + real k * step \<le> bound"
    using assms by (simp add: field_simps)
  finally show ?thesis .
qed

lemma sweepLoop_rows:
  assumes "0 < step"
  shows "sweepLoop t r minX maxX maxY step y acc =
           Some (acc @ concat (map (\<lambda>k. rowSegments t r minX maxX (y + real k * step))
                                 [0..<stepCount y maxY step]))"
proof (induction "stepCount y maxY step" arbitrary: y acc)
  case 0
  then have "maxY < y" using assms by (simp add: stepCount_0)
  then show ?case using 0 by (subst sweepLoop.simps) simp
next
  case (Suc n)
  then have le: "y \<le> maxY" by (auto simp: stepCount_def split: if_splits)
  from stepCount_Suc [OF assms le] Suc(2) have n: "n = stepCount (y + step) maxY step" by simp
  have "sweepLoop t r minX maxX maxY step y acc =
          sweepLoop t r minX maxX maxY step (y + step) (acc @ rowSegments t r minX maxX y)"
    using le by (subst sweepLoop.simps) simp
  also have "\<dots> = Some ((acc @ rowSegments t r minX maxX y) @
       concat (map (\<lambda>k. rowSegments t r minX maxX ((y + step) + real k * step)) [0..<n]))"
    using Suc(1) [OF n] n by simp
  also have "map (\<lambda>k. rowSegments t r minX maxX ((y + step) + real k * step)) [0..<n]
      = map (\<lambda>k. rowSegments t r minX maxX (y + real k * step)) (map Suc [0..<n])"
    by (simp add: algebra_simps)
  finally show ?case
    using Suc(2) [symmetric] by (simp add: upt_conv_Cons map_Suc_upt del: upt_Suc)
qed

lemma alongLoop_steps:
  assumes "0 < dAlong"
  shows "alongLoop t line len dAlong d acc =
           Some (acc @ map (\<lambda>k. along t line (d + real k * dAlong)) [0..<stepCount d len dAlong])"
proof (induction "stepCount d len dAlong" arbitrary: d acc)
  case 0
  then have "len < d" using assms by (simp add: stepCount_0)
  then show ?case using 0 by (subst alongLoop.simps) simp
next
  case (Suc n)
  then have le: "d \<le> len" by (auto simp: stepCount_def split: if_splits)
  from stepCount_Suc [OF assms le] Suc(2) have n: "n = stepCount (d + dAlong) len dAlong" by simp
  have "alongLoop t line len dAlong d acc =
          alongLoop t line len dAlong (d + dAlong) (acc @ [along t line d])"
    using le by (subst alongLoop.simps) simp
  also have "\<dots> = Some ((acc @ [along t line d]) @
       map (\<lambda>k. along t line ((d + dAlong) + real k * dAlong)) [0..<n])"
    using Suc(1) [OF n] n by simp
  also have "map (\<lambda>k. along t line ((d + dAlong) + real k * dAlong)) [0..<n]
      = map (\<lambda>k. along t line (d + real k * dAlong)) (map Suc [0..<n])"
    by (simp add: algebra_simps)
  finally show ?case
    using Suc(2) [symmetric] by (simp add: upt_conv_Cons map_Suc_upt del: upt_Suc)
qed

section \<open>Flight lines of the sweep\<close>

lemma pairLoop_drop: "pairLoop coords i = consecutivePairs (drop i coords)"
proof (induction coords i rule: pairLoop.induct)
  case (1 coords i)
  show ?case
  proof (cases "i < length coords")
    case False
    then show ?thesis by (simp add: pairLoop.simps [of coords i])
  next
    case True
    note lt = this
    from 1 [OF lt] have IH: "pairLoop coords (i + 2) = consecutivePairs (drop (i + 2) coords)" .
    show ?thesis
    proof (cases "i + 1 < length coords")
      case True
      have "drop i coords = coords ! i # drop (Suc i) coords"
        using lt by (simp add: Cons_nth_drop_Suc)
      also have "drop (Suc i) coords = coords ! (i + 1) # drop (i + 2) coords"
        using True by (simp add: Cons_nth_drop_Suc)
      finally have d: "drop i coords = coords ! i # coords ! (i + 1) # drop (i + 2) coords" .
      show ?thesis using lt True IH by (simp add: pairLoop.simps [of coords i] d)
    next
      case False
      have "drop i coords = coords ! i # drop (Suc i) coords"
        using lt by (simp add: Cons_nth_drop_Suc)
      then have d: "drop i coords = [coords ! i]" using False by simp
      have e: "drop (i + 2) coords = []" using False by simp
      show ?thesis using lt False IH by (simp add: pairLoop.simps [of coords i] d e)
    qed
  qed
qed

lemma length_consecutivePairs: "length (consecutivePairs xs) = length xs div 2"
  by (induction xs rule: consecutivePairs.induct) auto

lemma nth_consecutivePairs:
  "j < length xs div 2 \<Longrightarrow> consecutivePairs xs ! j = (xs ! (2 * j), xs ! (2 * j + 1))"
proof (induction xs arbitrary: j rule: consecutivePairs.induct)
  case (1 a b rest)
  then show ?case by (cases j) auto
qed auto

lemma rowSegments_pairs:
  "rowSegments t r minX maxX y =
     consecutivePairs (sort_key fst (lineIntersect t ((minX, y), (maxX, y)) r))"
proof -
  let ?c = "lineIntersect t ((minX, y), (maxX, y)) r"
  have "length ?c \<le> 1 \<Longrightarrow> consecutivePairs (sort_key fst ?c) = []"
    by (cases ?c; cases "tl ?c") auto
  then show ?thesis
    by (auto simp: rowSegments_def Let_def pairLoop_drop)
qed

text \<open>
  Claim C1. When the side spacing is a positive number of degrees, the sweep returns,
  and its flight lines are, row after row for the rows \<open>y = minY + k * step\<close> with
  \<open>y \<le> maxY\<close>, the consecutive pairs of the intersection points of the row sorted by
  X. Sorting keeps the points and orders them by X; a list of \<open>n\<close> points gives
  \<open>n div 2\<close> pairs, the \<open>j\<close>-th being the points \<open>2j\<close> and \<open>2j + 1\<close>: an odd last point
  is dropped and fewer than two points give nothing.
\<close>

theorem sweep_rows:
  assumes "0 < lengthToDegrees t dSide"
    and "bbox t rotatedFeature = (minX, minY, maxX, maxY)"
  shows "sweep t rotatedFeature dSide =
           Some (concat (map (\<lambda>k. consecutivePairs
                   (sortedIntersections t rotatedFeature minX maxX
                      (minY + real k * lengthToDegrees t dSide)))
                 [0..<stepCount minY maxY (lengthToDegrees t dSide)]))
       \<and> (\<forall>k. k < stepCount minY maxY (lengthToDegrees t dSide)
               \<longleftrightarrow> minY + real k * lengthToDegrees t dSide \<le> maxY)
       \<and> (\<forall>y. sorted (map fst (sortedIntersections t rotatedFeature minX maxX y))
              \<and> mset (sortedIntersections t rotatedFeature minX maxX y)
                  = mset (lineIntersect t ((minX, y), (maxX, y)) rotatedFeature))
       \<and> (\<forall>xs :: position list. length (consecutivePairs xs) = length xs div 2
              \<and> (\<forall>j < length xs div 2.
                    consecutivePairs xs ! j = (xs ! (2 * j), xs ! (2 * j + 1))))"
proof -
  have "sweep t rotatedFeature dSide =
          Some (concat (map (\<lambda>k. rowSegments t rotatedFeature minX maxX
                   (minY + real k * lengthToDegrees t dSide))
                 [0..<stepCount minY maxY (lengthToDegrees t dSide)]))"
    using assms by (simp add: sweep_def sweepLoop_rows)
  then show ?thesis
    using assms(1)
    by (simp add: rowSegments_pairs sortedIntersections_def stepCount_less
        length_consecutivePairs nth_consecutivePairs)
qed

text \<open>The sweep of the sample square with a side spacing of 15 meters: three rows.\<close>

theorem sweep_rows_witness:
  "0 < lengthToDegrees planarTurf 15
   \<and> bbox planarTurf sampleBox = (0, 0, 3 / 10000, 3 / 10000)
   \<and> sweep planarTurf sampleBox 15 =
       Some [((0, 0), (3 / 10000, 0)), ((0, 3 / 20000), (3 / 10000, 3 / 20000)),
             ((0, 3 / 10000), (3 / 10000, 3 / 10000))]"
proof -
  have a: "0 < lengthToDegrees planarTurf 15" by (simp add: planarTurf_def)
  have b: "bbox planarTurf sampleBox = (0, 0, 3 / 10000, 3 / 10000)"
    by (simp add: planarTurf_def sampleBox_def)
  have n: "stepCount 0 (3 / 10000) (lengthToDegrees planarTurf 15) = 3"
    by (simp add: stepCount_def planarTurf_def)
  have u: "[0..<3] = [0, 1, 2]" by (simp add: upt_rec)
  have r: "\<And>y. consecutivePairs (sortedIntersections planarTurf sampleBox 0 (3 / 10000) y)
      = (if 0 \<le> y \<and> y \<le> 3 / 10000 then [((0, y), (3 / 10000, y))] else [])"
    by (simp add: sortedIntersections_def planarTurf_def sampleBox_def)
  show ?thesis
    using sweep_rows [OF a b, THEN conjunct1] a b unfolding n u r
    by (simp add: planarTurf_def)
qed

section \<open>Waypoints along the flight lines\<close>

lemma lineWaypoints_segmentPoints:
  assumes "0 < d" and "0 < lineLength t line"
  shows "lineWaypoints t d i line =
           Some (if odd i then rev (segmentPoints t d line) else segmentPoints t d line)"
  using assms
  by (simp add: lineWaypoints_def alongLoop_steps steppedPoints_def segmentPoints_def Let_def
      odd_iff_mod_2_eq_one)

lemma waypointsByLineFrom_segmentPoints:
  assumes "0 < d" and "\<forall>line \<in> set lines. 0 < lineLength t line"
  shows "waypointsByLineFrom t d i lines =
           Some (map (\<lambda>j. if odd (i + j) then rev (segmentPoints t d (lines ! j))
                           else segmentPoints t d (lines ! j))
                   [0..<length lines])"
  using assms(2)
proof (induction lines arbitrary: i)
  case Nil
  then show ?case by simp
next
  case (Cons line rest)
  have "[0..<length (line # rest)] = 0 # map Suc [0..<length rest]"
    by (simp add: upt_conv_Cons map_Suc_upt del: upt_Suc)
  then show ?case
    using Cons assms(1) by (simp add: lineWaypoints_segmentPoints del: upt_Suc)
qed

text \<open>
  Claim C2. For an along-track spacing \<open>d > 0\<close> and flight lines of positive length,
  the waypoints of line \<open>j\<close> are its segment points, reversed exactly when \<open>j\<close> is
  odd. The segment points are the stepped points followed by the endpoint of the line
  if and only if the last stepped point is more than one meter from it, and the stepped
  points are the points at distances \<open>k * d\<close> for exactly the \<open>k\<close> with
  \<open>k * d \<le> L\<close>.
\<close>

theorem waypoint_placement:
  assumes "0 < d" and "\<forall>line \<in> set lines. 0 < lineLength t line"
  shows "waypointsByLineFrom t d 0 lines =
           Some (map (\<lambda>j. if odd j then rev (segmentPoints t d (lines ! j))
                           else segmentPoints t d (lines ! j))
                   [0..<length lines])
       \<and> (\<forall>line \<in> set lines.
             segmentPoints t d line =
               steppedPoints t d line
                 @ (if distance t (last (steppedPoints t d line)) (snd line) > 1
                    then [snd line] else [])
           \<and> steppedPoints t d line =
               map (\<lambda>k. along t line (real k * d)) [0..<stepCount 0 (lineLength t line) d]
           \<and> (\<forall>k. k < stepCount 0 (lineLength t line) d \<longleftrightarrow> real k * d \<le> lineLength t line))"
  using assms waypointsByLineFrom_segmentPoints [OF assms, of 0]
  by (simp add: segmentPoints_def steppedPoints_def stepCount_less)

text \<open>
  The two lines of the sample square with a spacing of 20 meters: the points at 0 and
  20 meters and the endpoint at 30 meters, the second line reversed.
\<close>

theorem waypoint_placement_witness:
  "(0 :: real) < 20
   \<and> 0 < lineLength planarTurf (sampleLines ! 0) \<and> 0 < lineLength planarTurf (sampleLines ! 1)
   \<and> waypointsByLineFrom planarTurf 20 0 sampleLines =
       Some [[(0, 0), (1 / 5000, 0), (3 / 10000, 0)],
             [(3 / 10000, 3 / 10000), (1 / 5000, 3 / 10000), (0, 3 / 10000)]]"
proof -
  have d: "(0 :: real) < 20" by simp
  have l: "\<forall>line \<in> set sampleLines. 0 < lineLength planarTurf line"
    by (simp add: sampleLines_def planarTurf_def)
  have n: "\<And>y. stepCount 0 (lineLength planarTurf ((0, y), (3 / 10000, y))) 20 = 2"
    by (simp add: stepCount_def planarTurf_def)
  have u: "[0..<2] = [0, 1]" by (simp add: upt_rec)
  have s: "\<And>y. steppedPoints planarTurf 20 ((0, y), (3 / 10000, y)) = [(0, y), (1 / 5000, y)]"
    unfolding steppedPoints_def n u by (simp add: planarTurf_def)
  have p: "\<And>y. segmentPoints planarTurf 20 ((0, y), (3 / 10000, y))
             = [(0, y), (1 / 5000, y), (3 / 10000, y)]"
    unfolding segmentPoints_def s by (simp add: planarTurf_def)
  have "waypointsByLineFrom planarTurf 20 0 sampleLines =
          Some (map (\<lambda>j. if odd j then rev (segmentPoints planarTurf 20 (sampleLines ! j))
                           else segmentPoints planarTurf 20 (sampleLines ! j))
                  [0..<length sampleLines])"
    using waypoint_placement [OF d l] by (rule conjunct1)
  then show ?thesis using d l by (simp add: sampleLines_def u p)
qed

section \<open>The plan returned by the planner\<close>

lemma slice_nat: "slice xs (int a) (int a + int n) = take n (drop a xs)"
proof -
  have "take (nat (min (int a + int n) (int (length xs)) - min (int a) (int (length xs))))
          (drop (nat (min (int a) (int (length xs)))) xs) = take n (drop a xs)"
    by (cases "a \<le> length xs"; cases "a + n \<le> length xs") (auto simp: min_def)
  then show ?thesis by (simp add: slice_def Let_def)
qed

lemma concat_restructure:
  "concat (restructure f i ls) = take (length (concat ls)) (drop i f)"
proof (induction ls arbitrary: i)
  case Nil
  then show ?case by simp
next
  case (Cons l ls)
  have "take (length l + length (concat ls)) (drop i f)
      = take (length l) (drop i f) @ take (length (concat ls)) (drop (i + length l) f)"
    by (simp add: take_add add.commute)
  then show ?case using Cons by (simp add: slice_nat)
qed

lemma length_formattedWaypoints [simp]:
  "length (formattedWaypoints t fp final) = length final"
  by (simp add: formattedWaypoints_def)

lemma length_footprintPolygons [simp]:
  "length (footprintPolygons t w h final) = length final"
  by (simp add: footprintPolygons_def)

lemma generateFlightPlan_Inr:
  assumes "generateFlightPlan t g fp cp = Some (Inr plan)"
  obtains final where "final \<noteq> []"
    and "concat (FlightPlanResult.waypoints plan) = formattedWaypoints t fp final"
    and "FlightPlanResult.footprints plan =
           footprintPolygons t (footprintWidth fp cp) (footprintHeight fp cp) final"
proof -
  from assms have pos: "0 < distanceSideTrack fp cp" "0 < distanceAlongTrack fp cp"
    by (auto simp: generateFlightPlan_def Let_def split: if_splits)
  from assms pos obtain segs wbl where
    wbl: "waypointsByLineFrom t (distanceAlongTrack fp cp) 0 segs = Some wbl"
    and res: "(let final = map (\<lambda>wp. transformRotatePoint t wp (flightDirection fp)
                                   (centerOfMass t g)) (concat wbl)
               in if length final = 0 then Some (Inl NoCoverage)
                  else Some (Inr \<lparr> FlightPlanResult.waypoints =
                          restructure (formattedWaypoints t fp final) 0 wbl,
                        footprints = footprintPolygons t (footprintWidth fp cp)
                          (footprintHeight fp cp) final \<rparr>))
             = Some (Inr plan)"
    by (auto simp: generateFlightPlan_def Let_def split: if_splits option.splits)
  define final where "final = map (\<lambda>wp. transformRotatePoint t wp (flightDirection fp)
                                   (centerOfMass t g)) (concat wbl)"
  from res have ne: "final \<noteq> []"
    and plan: "plan = \<lparr> FlightPlanResult.waypoints =
                          restructure (formattedWaypoints t fp final) 0 wbl,
                        footprints = footprintPolygons t (footprintWidth fp cp)
                          (footprintHeight fp cp) final \<rparr>"
    by (auto simp: Let_def final_def split: if_splits)
  have "length (concat wbl) = length final" by (simp add: final_def)
  then have "concat (FlightPlanResult.waypoints plan) = formattedWaypoints t fp final"
    by (simp add: plan concat_restructure)
  with ne plan show thesis by (intro that [of final]) simp_all
qed

text \<open>
  With positive spacings and a positive step in degrees the planner returns: a plan or
  one of its two errors.
\<close>

lemma waypointsByLineFrom_returns:
  assumes "0 < d"
  shows "\<exists>byLine. waypointsByLineFrom t d i lines = Some byLine"
proof (induction lines arbitrary: i)
  case Nil
  then show ?case by simp
next
  case (Cons line rest)
  from alongLoop_steps [OF assms, of t line "lineLength t line" 0 "[]"]
  obtain w where "lineWaypoints t d i line = Some w"
    by (simp add: lineWaypoints_def Let_def)
  moreover from Cons [of "i + 1"] obtain ws where
    "waypointsByLineFrom t d (i + 1) rest = Some ws" by blast
  ultimately show ?case by simp
qed

lemma generateFlightPlan_returns:
  assumes "0 < distanceSideTrack fp cp" and "0 < distanceAlongTrack fp cp"
    and "0 < lengthToDegrees t (distanceSideTrack fp cp)"
  shows "\<exists>r. generateFlightPlan t g fp cp = Some r"
proof -
  let ?rot = "transformRotate t g (- flightDirection fp) (centerOfMass t g)"
  obtain minX minY maxX maxY where b: "bbox t ?rot = (minX, minY, maxX, maxY)"
    by (cases "bbox t ?rot") auto
  from sweepLoop_rows [OF assms(3), of t ?rot minX maxX maxY minY "[]"] b
  obtain segs where s: "sweep t ?rot (distanceSideTrack fp cp) = Some segs"
    by (simp add: sweep_def)
  from waypointsByLineFrom_returns [OF assms(2), of t 0 segs]
  obtain byLine where w: "waypointsByLineFrom t (distanceAlongTrack fp cp) 0 segs = Some byLine"
    by blast
  show ?thesis
    using assms(1,2) by (simp add: generateFlightPlan_def Let_def s w)
qed

text \<open>The planner on the sample square.\<close>

lemma sample_spacing:
  "footprintWidth sampleFlight sampleCamera = 100"
  "footprintHeight sampleFlight sampleCamera = 75"
  "distanceAlongTrack sampleFlight sampleCamera = 15"
  "distanceSideTrack sampleFlight sampleCamera = 30"
  by (simp_all add: distanceAlongTrack_def distanceSideTrack_def footprintWidth_def
      footprintHeight_def gsd_def sampleFlight_def sampleCamera_def)

lemma sample_sweep: "sweep planarTurf sampleBox 30 = Some sampleLines"
proof -
  have a: "0 < lengthToDegrees planarTurf 30" by (simp add: planarTurf_def)
  have b: "bbox planarTurf sampleBox = (0, 0, 3 / 10000, 3 / 10000)"
    by (simp add: planarTurf_def sampleBox_def)
  have n: "stepCount 0 (3 / 10000) (lengthToDegrees planarTurf 30) = 2"
    by (simp add: stepCount_def planarTurf_def)
  have u: "[0..<2] = [0, 1]" by (simp add: upt_rec)
  have r: "\<And>y. rowSegments planarTurf sampleBox 0 (3 / 10000) y
      = (if 0 \<le> y \<and> y \<le> 3 / 10000 then [((0, y), (3 / 10000, y))] else [])"
    by (simp add: rowSegments_pairs planarTurf_def sampleBox_def)
  have "sweep planarTurf sampleBox 30 =
      Some (concat (map (\<lambda>k. rowSegments planarTurf sampleBox 0 (3 / 10000)
                (0 + real k * lengthToDegrees planarTurf 30))
            [0..<stepCount 0 (3 / 10000) (lengthToDegrees planarTurf 30)]))"
    using a b by (simp add: sweep_def sweepLoop_rows)
  then show ?thesis unfolding n u r by (simp add: planarTurf_def sampleLines_def)
qed

lemma sample_segmentPoints:
  "segmentPoints planarTurf 15 ((0, y), (3 / 10000, y))
     = [(0, y), (3 / 20000, y), (3 / 10000, y)]"
proof -
  have n: "stepCount 0 (lineLength planarTurf ((0, y), (3 / 10000, y))) 15 = 3"
    by (simp add: stepCount_def planarTurf_def)
  have u: "[0..<3] = [0, 1, 2]" by (simp add: upt_rec)
  have "steppedPoints planarTurf 15 ((0, y), (3 / 10000, y))
          = [(0, y), (3 / 20000, y), (3 / 10000, y)]"
    unfolding steppedPoints_def n u by (simp add: planarTurf_def)
  then show ?thesis by (simp add: segmentPoints_def) (simp add: planarTurf_def)
qed

lemma sample_waypointsByLine:
  "waypointsByLineFrom planarTurf 15 0 sampleLines = Some sampleByLine"
proof -
  have l: "\<forall>line \<in> set sampleLines. 0 < lineLength planarTurf line"
    by (simp add: planarTurf_def sampleLines_def)
  have u: "[0..<2] = [0, 1]" by (simp add: upt_rec)
  show ?thesis
    using waypointsByLineFrom_segmentPoints [OF _ l, of 15 0]
    by (simp add: u sample_segmentPoints sampleByLine_def sampleLines_def)
qed

lemma sample_run:
  "generateFlightPlan planarTurf sampleBox sampleFlight sampleCamera = Some (Inr samplePlan)"
proof -
  have r: "transformRotate planarTurf sampleBox (- flightDirection sampleFlight)
             (centerOfMass planarTurf sampleBox) = sampleBox"
    by (simp add: planarTurf_def)
  have p: "map (\<lambda>wp. transformRotatePoint planarTurf wp (flightDirection sampleFlight)
                        (centerOfMass planarTurf sampleBox)) (concat sampleByLine)
           = concat sampleByLine"
    by (simp add: planarTurf_def)
  have ne: "concat sampleByLine \<noteq> []" by (simp add: sampleByLine_def)
  show ?thesis
    unfolding generateFlightPlan_def Let_def sample_spacing r sample_sweep option.case
      sample_waypointsByLine p
    using ne by (simp add: samplePlan_def)
qed

lemma sample_flat:
  "concat (FlightPlanResult.waypoints samplePlan)
     = formattedWaypoints planarTurf sampleFlight (concat sampleByLine)"
  by (simp add: samplePlan_def concat_restructure)

lemma map_const_replicate:
  "\<forall>x \<in> set xs. f x = c \<Longrightarrow> map f xs = replicate (length xs) c"
  by (induction xs) auto

section \<open>The overlap guard\<close>

lemma spacing_positive:
  assumes "0 < sensorWidth cp" "0 < focalLength cp" "0 < imageWidth cp" "0 < imageHeight cp"
    and "0 < FlightParams.altitude fp"
  shows "0 < footprintWidth fp cp" and "0 < footprintHeight fp cp"
  using assms by (simp_all add: footprintWidth_def footprintHeight_def gsd_def)

text \<open>
  Claim C4. For positive camera dimensions and a positive altitude: with both overlaps
  in \<open>[0, 100)\<close> the two spacings are the footprint sides scaled by
  \<open>1 - overlap / 100\<close>, both are positive, and the planner does not fail with
  InvalidParameters; with an overlap of 100 or more a spacing is not positive and the
  planner fails with InvalidParameters, which is a result without waypoints.
\<close>

theorem overlap_guard:
  assumes "0 < sensorWidth cp" "0 < focalLength cp" "0 < imageWidth cp" "0 < imageHeight cp"
    and "0 < FlightParams.altitude fp"
  shows "(0 \<le> frontOverlap fp \<and> frontOverlap fp < 100
            \<and> 0 \<le> sideOverlap fp \<and> sideOverlap fp < 100 \<longrightarrow>
          distanceAlongTrack fp cp = footprintHeight fp cp * (1 - frontOverlap fp / 100)
          \<and> 0 < distanceAlongTrack fp cp
          \<and> distanceSideTrack fp cp = footprintWidth fp cp * (1 - sideOverlap fp / 100)
          \<and> 0 < distanceSideTrack fp cp
          \<and> generateFlightPlan t g fp cp \<noteq> Some (Inl InvalidParameters))
       \<and> (100 \<le> frontOverlap fp \<or> 100 \<le> sideOverlap fp \<longrightarrow>
          (distanceAlongTrack fp cp \<le> 0 \<or> distanceSideTrack fp cp \<le> 0)
          \<and> generateFlightPlan t g fp cp = Some (Inl InvalidParameters))"
proof -
  note pos = spacing_positive [OF assms]
  have ne: "NoCoverage \<noteq> InvalidParameters"
    by (simp add: NoCoverage_def InvalidParameters_def)
  have a: "frontOverlap fp < 100 \<Longrightarrow> 0 < distanceAlongTrack fp cp"
    using pos by (simp add: distanceAlongTrack_def)
  have b: "sideOverlap fp < 100 \<Longrightarrow> 0 < distanceSideTrack fp cp"
    using pos by (simp add: distanceSideTrack_def)
  have c: "100 \<le> frontOverlap fp \<Longrightarrow> distanceAlongTrack fp cp \<le> 0"
    using pos by (simp add: distanceAlongTrack_def mult_le_0_iff)
  have d: "100 \<le> sideOverlap fp \<Longrightarrow> distanceSideTrack fp cp \<le> 0"
    using pos by (simp add: distanceSideTrack_def mult_le_0_iff)
  have e: "0 < distanceAlongTrack fp cp \<Longrightarrow> 0 < distanceSideTrack fp cp \<Longrightarrow>
      generateFlightPlan t g fp cp \<noteq> Some (Inl InvalidParameters)"
    using ne by (auto simp: generateFlightPlan_def Let_def split: option.splits)
  have f: "distanceAlongTrack fp cp \<le> 0 \<or> distanceSideTrack fp cp \<le> 0 \<Longrightarrow>
      generateFlightPlan t g fp cp = Some (Inl InvalidParameters)"
    by (auto simp: generateFlightPlan_def Let_def)
  show ?thesis
    using a b c d e f by (auto simp: distanceAlongTrack_def distanceSideTrack_def)
qed

text \<open>
  The sample parameters, with overlaps of 80 and 70 percent, and the same with a front
  overlap of 100 percent.
\<close>

theorem overlap_guard_witness:
  "0 < sensorWidth sampleCamera \<and> 0 < focalLength sampleCamera \<and> 0 < imageWidth sampleCamera
   \<and> 0 < imageHeight sampleCamera \<and> 0 < FlightParams.altitude sampleFlight
   \<and> 0 \<le> frontOverlap sampleFlight \<and> frontOverlap sampleFlight < 100
   \<and> 0 \<le> sideOverlap sampleFlight \<and> sideOverlap sampleFlight < 100
   \<and> distanceAlongTrack sampleFlight sampleCamera = 15
   \<and> distanceSideTrack sampleFlight sampleCamera = 30
   \<and> generateFlightPlan planarTurf sampleBox sampleFlight sampleCamera
        \<noteq> Some (Inl InvalidParameters)
   \<and> 100 \<le> frontOverlap (sampleFlight\<lparr>frontOverlap := 100\<rparr>)
   \<and> generateFlightPlan planarTurf sampleBox (sampleFlight\<lparr>frontOverlap := 100\<rparr>) sampleCamera
        = Some (Inl InvalidParameters)"
proof -
  have c: "0 < sensorWidth sampleCamera" "0 < focalLength sampleCamera"
    "0 < imageWidth sampleCamera" "0 < imageHeight sampleCamera"
    by (simp_all add: sampleCamera_def)
  have f: "0 < FlightParams.altitude sampleFlight"
    "0 < FlightParams.altitude (sampleFlight\<lparr>frontOverlap := 100\<rparr>)"
    by (simp_all add: sampleFlight_def)
  have o: "0 \<le> frontOverlap sampleFlight \<and> frontOverlap sampleFlight < 100
     \<and> 0 \<le> sideOverlap sampleFlight \<and> sideOverlap sampleFlight < 100"
    by (simp add: sampleFlight_def)
  show ?thesis
    using overlap_guard [OF c f(1), of planarTurf sampleBox]
      overlap_guard [OF c f(2), of planarTurf sampleBox] c f o
    by (simp add: sample_spacing)
qed

section \<open>Fields copied from the flight parameters\<close>

text \<open>
  Claim C10. Every waypoint of a returned plan carries the altitude, the gimbal pitch
  and the speed of the flight parameters.
\<close>

theorem fields_from_flightParams:
  assumes "generateFlightPlan t g fp cp = Some (Inr plan)"
  shows "\<forall>wp \<in> set (concat (FlightPlanResult.waypoints plan)).
           Waypoint.altitude wp = FlightParams.altitude fp
         \<and> Waypoint.gimbalPitch wp = FlightParams.gimbalPitch fp
         \<and> Waypoint.speed wp = FlightParams.speed fp"
proof -
  from assms obtain final where
    "concat (FlightPlanResult.waypoints plan) = formattedWaypoints t fp final"
    by (rule generateFlightPlan_Inr)
  then show ?thesis
    by (auto simp: formattedWaypoints_def formatWaypoint_def Let_def)
qed

text \<open>The six waypoints of the sample plan.\<close>

theorem fields_from_flightParams_witness:
  "generateFlightPlan planarTurf sampleBox sampleFlight sampleCamera = Some (Inr samplePlan)
   \<and> map Waypoint.altitude (concat (FlightPlanResult.waypoints samplePlan)) = replicate 6 100
   \<and> map Waypoint.gimbalPitch (concat (FlightPlanResult.waypoints samplePlan))
       = replicate 6 (- 90)
   \<and> map Waypoint.speed (concat (FlightPlanResult.waypoints samplePlan)) = replicate 6 10"
proof -
  have n: "length (concat (FlightPlanResult.waypoints samplePlan)) = 6"
    by (simp add: sample_flat sampleByLine_def)
  have v: "FlightParams.altitude sampleFlight = 100"
    "FlightParams.gimbalPitch sampleFlight = - 90" "FlightParams.speed sampleFlight = 10"
    by (simp_all add: sampleFlight_def)
  from fields_from_flightParams [OF sample_run]
  have "map Waypoint.altitude (concat (FlightPlanResult.waypoints samplePlan))
          = replicate (length (concat (FlightPlanResult.waypoints samplePlan)))
              (FlightParams.altitude sampleFlight)"
    and "map Waypoint.gimbalPitch (concat (FlightPlanResult.waypoints samplePlan))
          = replicate (length (concat (FlightPlanResult.waypoints samplePlan)))
              (FlightParams.gimbalPitch sampleFlight)"
    and "map Waypoint.speed (concat (FlightPlanResult.waypoints samplePlan))
          = replicate (length (concat (FlightPlanResult.waypoints samplePlan)))
              (FlightParams.speed sampleFlight)"
    by (simp_all add: map_const_replicate)
  then show ?thesis using sample_run by (simp add: n v)
qed

section \<open>Headings\<close>

lemma nth_formattedWaypoints:
  "i < length final \<Longrightarrow>
   formattedWaypoints t fp final ! i = formatWaypoint t fp final i"
  by (simp add: formattedWaypoints_def)

lemma positionOf_formatWaypoint [simp]:
  "positionOf (formatWaypoint t fp final i) = final ! i"
  by (simp add: positionOf_def formatWaypoint_def Let_def)

lemma normalize360_bearing:
  assumes "- 180 \<le> h" and "h \<le> 180"
  shows "(if h < 0 then h + 360 else h) = normalize360 h"
proof (cases "h < 0")
  case True
  then have "\<lfloor>h / 360\<rfloor> = - 1" using assms by (simp add: floor_eq_iff)
  then show ?thesis using True by (simp add: normalize360_def)
next
  case False
  then have "\<lfloor>h / 360\<rfloor> = 0" using assms by (simp add: floor_eq_iff)
  then show ?thesis using False by (simp add: normalize360_def)
qed

lemma normalize360_range: "0 \<le> normalize360 x \<and> normalize360 x < 360"
proof -
  have "of_int \<lfloor>x / 360\<rfloor> \<le> x / 360" and "x / 360 < of_int \<lfloor>x / 360\<rfloor> + 1"
    by linarith+
  then show ?thesis by (simp add: normalize360_def field_simps)
qed

text \<open>
  Claim C3, as amended. In a returned plan with at least two waypoints, when the
  bearings of the library lie in \<open>[-180, 180]\<close>: the heading of every waypoint but the
  last is the bearing from it to the next waypoint, brought into \<open>[0, 360)\<close>; the
  heading of the last waypoint is the bearing from it to the waypoint before it, brought
  into \<open>[0, 360)\<close> and not reversed; and every heading lies in \<open>[0, 360)\<close>.
\<close>

theorem heading_of_plan:
  assumes "generateFlightPlan t g fp cp = Some (Inr plan)"
    and "\<forall>p q. - 180 \<le> bearing t p q \<and> bearing t p q \<le> 180"
    and "wps = concat (FlightPlanResult.waypoints plan)"
    and "2 \<le> length wps"
  shows "(\<forall>i. i + 1 < length wps \<longrightarrow>
            heading (wps ! i)
              = normalize360 (bearing t (positionOf (wps ! i)) (positionOf (wps ! (i + 1)))))
       \<and> heading (wps ! (length wps - 1))
           = normalize360 (bearing t (positionOf (wps ! (length wps - 1)))
                             (positionOf (wps ! (length wps - 2))))
       \<and> (\<forall>i < length wps. 0 \<le> heading (wps ! i) \<and> heading (wps ! i) < 360)"
proof -
  from assms(1) obtain final where
    flat: "concat (FlightPlanResult.waypoints plan) = formattedWaypoints t fp final"
    by (rule generateFlightPlan_Inr)
  with assms(3) have wps: "wps = formattedWaypoints t fp final" by simp
  then have len: "length wps = length final" by simp
  have pos: "\<And>i. i < length final \<Longrightarrow> positionOf (wps ! i) = final ! i"
    by (simp add: wps nth_formattedWaypoints)
  have hd: "\<And>i. i < length final \<Longrightarrow>
      heading (wps ! i) = normalize360 (bearing t (final ! i) (nextWp final i))"
  proof -
    fix i assume i: "i < length final"
    let ?h = "bearing t (final ! i) (nextWp final i)"
    have "- 180 \<le> ?h" and "?h \<le> 180" using assms(2) by blast+
    then have "(if ?h < 0 then ?h + 360 else ?h) = normalize360 ?h"
      by (rule normalize360_bearing)
    then show "heading (wps ! i) = normalize360 ?h"
      using i by (simp add: wps nth_formattedWaypoints formatWaypoint_def Let_def rawHeading_def)
  qed
  have a: "\<And>i. i + 1 < length wps \<Longrightarrow>
      heading (wps ! i)
        = normalize360 (bearing t (positionOf (wps ! i)) (positionOf (wps ! (i + 1))))"
    using len by (simp add: hd pos nextWp_def)
  have b: "heading (wps ! (length wps - 1))
           = normalize360 (bearing t (positionOf (wps ! (length wps - 1)))
                             (positionOf (wps ! (length wps - 2))))"
  proof -
    define m where "m = length final - 1"
    have m: "m < length final" "\<not> m + 1 < length final" "1 \<le> m" "m - 1 < length final"
      and m2: "m - 1 = length wps - 2" and m1: "length wps - 1 = m"
      using len assms(4) by (simp_all add: m_def)
    have "nextWp final m = final ! (m - 1)"
      using m by (simp add: nextWp_def)
    then have "heading (wps ! m)
        = normalize360 (bearing t (positionOf (wps ! m)) (positionOf (wps ! (m - 1))))"
      using m by (simp add: hd pos)
    then show ?thesis unfolding m1 m2 .
  qed
  have c: "\<And>i. i < length wps \<Longrightarrow> 0 \<le> heading (wps ! i) \<and> heading (wps ! i) < 360"
    using len by (simp add: hd normalize360_range)
  from a b c show ?thesis by blast
qed

lemma sample_headings:
  "map heading (concat (FlightPlanResult.waypoints samplePlan)) = [90, 90, 0, 270, 270, 90]"
proof -
  have u: "[0..<6] = [0, 1, 2, 3, 4, 5]" by (simp add: upt_rec)
  have l: "length (concat sampleByLine) = 6" by (simp add: sampleByLine_def)
  show ?thesis
    unfolding sample_flat formattedWaypoints_def l u
    by (simp add: formatWaypoint_def rawHeading_def nextWp_def sampleByLine_def Let_def
        planarTurf_def planarBearing_def)
qed

lemma planarBearing_range: "- 180 \<le> planarBearing p q \<and> planarBearing p q \<le> 180"
  by (simp add: planarBearing_def)

text \<open>
  The headings of the sample plan: east along the first line, north to the second
  line, west along it, and east again at the last waypoint.
\<close>

theorem heading_of_plan_witness:
  "generateFlightPlan planarTurf sampleBox sampleFlight sampleCamera = Some (Inr samplePlan)
   \<and> (\<forall>p q. - 180 \<le> bearing planarTurf p q \<and> bearing planarTurf p q \<le> 180)
   \<and> 2 \<le> length (concat (FlightPlanResult.waypoints samplePlan))
   \<and> heading (concat (FlightPlanResult.waypoints samplePlan) ! 0)
       = normalize360 (bearing planarTurf
           (positionOf (concat (FlightPlanResult.waypoints samplePlan) ! 0))
           (positionOf (concat (FlightPlanResult.waypoints samplePlan) ! 1)))
   \<and> heading (concat (FlightPlanResult.waypoints samplePlan) ! 5)
       = normalize360 (bearing planarTurf
           (positionOf (concat (FlightPlanResult.waypoints samplePlan) ! 5))
           (positionOf (concat (FlightPlanResult.waypoints samplePlan) ! 4)))
   \<and> map heading (concat (FlightPlanResult.waypoints samplePlan)) = [90, 90, 0, 270, 270, 90]"
proof -
  have b: "\<forall>p q. - 180 \<le> bearing planarTurf p q \<and> bearing planarTurf p q \<le> 180"
    by (simp add: planarTurf_def planarBearing_range)
  have n: "length (concat (FlightPlanResult.waypoints samplePlan)) = 6"
    by (simp add: sample_flat sampleByLine_def)
  then have n2: "2 \<le> length (concat (FlightPlanResult.waypoints samplePlan))" by simp
  note h = heading_of_plan [OF sample_run b refl n2]
  from h have "heading (concat (FlightPlanResult.waypoints samplePlan) ! 0)
       = normalize360 (bearing planarTurf
           (positionOf (concat (FlightPlanResult.waypoints samplePlan) ! 0))
           (positionOf (concat (FlightPlanResult.waypoints samplePlan) ! (0 + 1))))"
    using n by simp
  moreover from h have "heading (concat (FlightPlanResult.waypoints samplePlan) ! 5)
       = normalize360 (bearing planarTurf
           (positionOf (concat (FlightPlanResult.waypoints samplePlan) ! 5))
           (positionOf (concat (FlightPlanResult.waypoints samplePlan) ! 4)))"
    using n by simp
  ultimately show ?thesis using sample_run b n2 sample_headings by simp
qed

text \<open>
  Claim C3 as stated fails at the last waypoint. For the two final waypoints
  \<open>[0, 0]\<close> and \<open>[1, 0]\<close> on the equator the bearing from the second to the first is
  \<open>-90\<close>, so the heading of the second is 270, while the reversed bearing is 90. In the
  sample plan the last waypoint has heading 90 and the reversed bearing is 270.
\<close>

theorem last_heading_not_reversed:
  "heading (formattedWaypoints planarTurf sampleFlight [(0, 0), (1, 0)] ! 1) = 270
   \<and> normalize360 (bearing planarTurf (1, 0) (0, 0) + 180) = 90
   \<and> heading (formattedWaypoints planarTurf sampleFlight [(0, 0), (1, 0)] ! 1)
       \<noteq> normalize360 (bearing planarTurf (1, 0) (0, 0) + 180)
   \<and> generateFlightPlan planarTurf sampleBox sampleFlight sampleCamera = Some (Inr samplePlan)
   \<and> heading (concat (FlightPlanResult.waypoints samplePlan) ! 5) = 90
   \<and> normalize360 (bearing planarTurf
          (positionOf (concat (FlightPlanResult.waypoints samplePlan) ! 5))
          (positionOf (concat (FlightPlanResult.waypoints samplePlan) ! 4)) + 180) = 270"
proof -
  have u: "[0..<2] = [0, 1]" by (simp add: upt_rec)
  have a: "heading (formattedWaypoints planarTurf sampleFlight [(0, 0), (1, 0)] ! 1) = 270"
    by (simp add: formattedWaypoints_def u formatWaypoint_def rawHeading_def nextWp_def Let_def
        planarTurf_def planarBearing_def)
  have f1: "\<lfloor>90 / 360 :: real\<rfloor> = 0" and f2: "\<lfloor>270 / 360 :: real\<rfloor> = 0"
    by (simp_all add: floor_eq_iff)
  have b: "normalize360 (bearing planarTurf (1, 0) (0, 0) + 180) = 90"
    by (simp add: normalize360_def planarTurf_def planarBearing_def f1)
  have u6: "[0..<6] = [0, 1, 2, 3, 4, 5]" by (simp add: upt_rec)
  have l: "length (concat sampleByLine) = 6" by (simp add: sampleByLine_def)
  have p: "positionOf (concat (FlightPlanResult.waypoints samplePlan) ! 5) = (0, 3 / 10000)"
    "positionOf (concat (FlightPlanResult.waypoints samplePlan) ! 4) = (3 / 20000, 3 / 10000)"
    unfolding sample_flat formattedWaypoints_def l u6
    by (simp_all add: sampleByLine_def)
  have c: "heading (concat (FlightPlanResult.waypoints samplePlan) ! 5) = 90"
    using arg_cong [OF sample_headings, of "\<lambda>xs. xs ! 5"]
    by (simp add: sample_flat sampleByLine_def)
  have d: "normalize360 (bearing planarTurf
          (positionOf (concat (FlightPlanResult.waypoints samplePlan) ! 5))
          (positionOf (concat (FlightPlanResult.waypoints samplePlan) ! 4)) + 180) = 270"
    unfolding p by (simp add: normalize360_def planarTurf_def planarBearing_def f2)
  from a b c d sample_run show ?thesis by simp
qed

section \<open>The filtered view\<close>

lemma upto_int_upt: "[0..int n - 1] = map int [0..<n]"
proof (induction n)
  case 0
  then show ?case by simp
next
  case (Suc n)
  have "[0..int (Suc n) - 1] = [0..int n - 1] @ [int n]"
    using upto_rec2 [of 0 "int n"] by simp
  then show ?case using Suc by simp
qed

lemma upto_nat_upt: "0 \<le> k \<Longrightarrow> [0..k - 1] = map int [0..<nat k]"
  using upto_int_upt [of "nat k"] by simp

lemma pushExisting_nat:
  "\<forall>j \<in> set js. j < length features \<Longrightarrow>
   pushExisting features (map int js) = map ((!) features) js"
  by (induction js) (auto simp: pushExisting_def index_def)

lemma map_nth_upt: "b \<le> length xs \<Longrightarrow> map ((!) xs) [a..<b] = take (b - a) (drop a xs)"
  by (auto simp: list_eq_iff_nth_eq)

lemma slice_take: "0 \<le> k \<Longrightarrow> slice xs 0 k = take (nat k) xs"
  by (auto simp: slice_def Let_def min_def)

lemma sliceFrom_drop: "0 \<le> k \<Longrightarrow> sliceFrom xs k = drop (nat k) xs"
  by (auto simp: sliceFrom_def slice_def Let_def min_def)

lemma shifted_upt:
  "map (\<lambda>i. int off + (int a + i)) (map int [0..<n]) = map int [off + a..<off + a + n]"
  by (auto simp: list_eq_iff_nth_eq)

lemma pushExisting_range:
  assumes "off + a + n \<le> length features"
  shows "pushExisting features (map (\<lambda>i. int off + (int a + i)) [0..int n - 1])
           = map ((!) features) [off + a..<off + a + n]"
proof -
  have "\<forall>j \<in> set [off + a..<off + a + n]. j < length features" using assms by simp
  then show ?thesis
    unfolding upto_int_upt shifted_upt by (rule pushExisting_nat)
qed

lemma filterLoop_kept:
  assumes "0 \<le> keepStart fp" and "0 \<le> keepEnd fp"
    and "off + length (concat lines) \<le> length features"
  shows "filterLoop fp features (int off) lines (accW, accF) =
           (accW @ concat (map (keepEnds (keepStart fp) (keepEnd fp)) lines),
            accF @ map ((!) features)
                     (keptPositions (keepStart fp) (keepEnd fp) off (map length lines)))"
  using assms(3)
proof (induction lines arbitrary: off accW accF)
  case Nil
  then show ?case by simp
next
  case (Cons line rest)
  let ?n = "length line"
  let ?ks = "keepStart fp" and ?ke = "keepEnd fp"
  have rest: "(off + ?n) + length (concat rest) \<le> length features"
    using Cons.prems by simp
  have n: "off + ?n \<le> length features" using Cons.prems by simp
  note IH = Cons.IH [OF rest]
  have step: "int off + int ?n = int (off + ?n)" by simp
  show ?case
  proof (cases "int ?n \<le> ?ks + ?ke")
    case True
    have kl: "keepEnds ?ks ?ke line = line" using True by (simp add: keepEnds_def)
    have kp: "keptPositions ?ks ?ke off (?n # map length rest)
        = [off..<off + ?n] @ keptPositions ?ks ?ke (off + ?n) (map length rest)"
      using True by simp
    have "pushExisting features (map (\<lambda>i. int off + i) [0..int ?n - 1])
        = map ((!) features) [off..<off + ?n]"
      using pushExisting_range [of off 0 ?n features] n by simp
    then show ?thesis
      using True IH [of "accW @ line"] unfolding filterLoop.simps Let_def step
      by (simp add: kl kp del: keptPositions.simps)
  next
    case False
    then have ks: "nat ?ks \<le> ?n" and ke: "nat ?ke \<le> ?n" using assms(1,2) by linarith+
    have kl: "keepEnds ?ks ?ke line = take (nat ?ks) line @ drop (?n - nat ?ke) line"
      using False by (simp add: keepEnds_def)
    have kp: "keptPositions ?ks ?ke off (?n # map length rest)
        = ([off..<off + nat ?ks] @ [off + ?n - nat ?ke..<off + ?n])
            @ keptPositions ?ks ?ke (off + ?n) (map length rest)"
      using False by simp
    have a: "pushExisting features (map (\<lambda>i. int off + i) [0..?ks - 1])
        = map ((!) features) [off..<off + nat ?ks]"
      using pushExisting_range [of off 0 "nat ?ks" features] n ks assms(1) by simp
    have "(\<lambda>i. int off + (int ?n - ?ke + i)) = (\<lambda>i. int off + (int (?n - nat ?ke) + i))"
      using ke assms(2) by (simp add: fun_eq_iff)
    moreover have "[0..?ke - 1] = [0..int (nat ?ke) - 1]" using assms(2) by simp
    moreover have "off + (?n - nat ?ke) + nat ?ke = off + ?n"
      and "off + (?n - nat ?ke) = off + ?n - nat ?ke" using ke by simp_all
    ultimately have b:
      "pushExisting features (map (\<lambda>i. int off + (int ?n - ?ke + i)) [0..?ke - 1])
        = map ((!) features) [off + ?n - nat ?ke..<off + ?n]"
      using pushExisting_range [of off "?n - nat ?ke" "nat ?ke" features] n by simp
    have c: "sliceFrom line (int ?n - ?ke) = drop (?n - nat ?ke) line"
      using ke assms(2) by (simp add: sliceFrom_drop nat_diff_distrib')
    have d: "slice line 0 ?ks = take (nat ?ks) line" using assms(1) by (rule slice_take)
    show ?thesis
      using False IH [of "accW @ take (nat ?ks) line @ drop (?n - nat ?ke) line"]
      unfolding filterLoop.simps Let_def step a b c d
      by (simp add: kl kp del: keptPositions.simps)
  qed
qed

lemma keptPositions_flat:
  assumes "0 \<le> ks" and "0 \<le> ke"
  shows "map ((!) (pre @ concat lines)) (keptPositions ks ke (length pre) (map length lines))
     = concat (map (keepEnds ks ke) lines)"
proof (induction lines arbitrary: pre)
  case Nil
  then show ?case by simp
next
  case (Cons line rest)
  let ?xs = "pre @ line @ concat rest"
  have IH: "map ((!) ?xs) (keptPositions ks ke (length pre + length line) (map length rest))
      = concat (map (keepEnds ks ke) rest)"
    using Cons.IH [of "pre @ line"] by simp
  have seg: "\<And>a b. a \<le> b \<Longrightarrow> b \<le> length line \<Longrightarrow>
      map ((!) ?xs) [length pre + a..<length pre + b] = take (b - a) (drop a line)"
    by (auto simp: list_eq_iff_nth_eq nth_append)
  have whole: "map ((!) ?xs) [length pre..<length pre + length line] = line"
    using seg [of 0 "length line"] by simp
  show ?case
  proof (cases "int (length line) \<le> ks + ke")
    case True
    have kl: "keepEnds ks ke line = line" using True by (simp add: keepEnds_def)
    show ?thesis using True IH whole by (simp add: kl)
  next
    case False
    have kl: "keepEnds ks ke line = take (nat ks) line @ drop (length line - nat ke) line"
      using False by (simp add: keepEnds_def)
    from False assms have ks: "nat ks \<le> length line" and ke: "nat ke \<le> length line"
      by linarith+
    have s1: "map ((!) ?xs) [length pre..<length pre + nat ks] = take (nat ks) line"
      using seg [of 0 "nat ks"] ks by simp
    have "length pre + length line - nat ke = length pre + (length line - nat ke)"
      using ke by simp
    then have s2: "map ((!) ?xs) [length pre + length line - nat ke..<length pre + length line]
        = drop (length line - nat ke) line"
      using seg [of "length line - nat ke" "length line"] by simp
    show ?thesis using False IH s1 s2 by (simp add: kl)
  qed
qed

lemma keptPositions_bound:
  assumes "0 \<le> ks" and "0 \<le> ke"
  shows "\<forall>k \<in> set (keptPositions ks ke off ns). off \<le> k \<and> k < off + sum_list ns"
proof (induction ns arbitrary: off)
  case Nil
  then show ?case by simp
next
  case (Cons n ns)
  have "\<forall>k \<in> set (keptPositions ks ke (off + n) ns). off \<le> k \<and> k < off + (n + sum_list ns)"
    using Cons [of "off + n"] by auto
  moreover have "\<not> int n \<le> ks + ke \<Longrightarrow> nat ks \<le> n" using assms by linarith
  moreover have "\<not> int n \<le> ks + ke \<Longrightarrow> nat ke \<le> n" using assms by linarith
  ultimately show ?case by (auto simp: Ball_def)
qed

lemma length_keepEnds:
  assumes "0 \<le> ks" and "0 \<le> ke"
  shows "length (keepEnds ks ke line)
           = (if int (length line) \<le> ks + ke then length line else nat ks + nat ke)"
  using assms by (auto simp: keepEnds_def)

lemma filterEffect_disabled:
  assumes "originalWaypoints s \<noteq> []" and "originalFootprints s = Some fps"
    and "\<not> enabled (filterParams s)"
  shows "AppState.waypoints (filterEffect s) = concat (originalWaypoints s)"
    and "AppState.footprints (filterEffect s) = Some fps"
  using assms by (simp_all add: filterEffect_def)

lemma filterEffect_enabled:
  assumes "originalWaypoints s \<noteq> []" and "originalFootprints s = Some fps"
    and "length fps = length (concat (originalWaypoints s))"
    and "0 \<le> keepStart (filterParams s)" and "0 \<le> keepEnd (filterParams s)"
    and "enabled (filterParams s)"
  shows "AppState.waypoints (filterEffect s)
           = concat (map (keepEnds (keepStart (filterParams s)) (keepEnd (filterParams s)))
                       (originalWaypoints s))"
    and "AppState.waypoints (filterEffect s)
           = map ((!) (concat (originalWaypoints s)))
               (keptPositions (keepStart (filterParams s)) (keepEnd (filterParams s)) 0
                  (map length (originalWaypoints s)))"
    and "AppState.footprints (filterEffect s)
           = Some (map ((!) fps)
               (keptPositions (keepStart (filterParams s)) (keepEnd (filterParams s)) 0
                  (map length (originalWaypoints s))))"
proof -
  have "0 + length (concat (originalWaypoints s)) \<le> length fps" using assms(3) by simp
  from filterLoop_kept [OF assms(4,5) this, of "[]" "[]"]
  have loop: "filterLoop (filterParams s) fps 0 (originalWaypoints s) ([], [])
      = (concat (map (keepEnds (keepStart (filterParams s)) (keepEnd (filterParams s)))
                       (originalWaypoints s)),
         map ((!) fps)
               (keptPositions (keepStart (filterParams s)) (keepEnd (filterParams s)) 0
                  (map length (originalWaypoints s))))"
    by simp
  show a: "AppState.waypoints (filterEffect s)
           = concat (map (keepEnds (keepStart (filterParams s)) (keepEnd (filterParams s)))
                       (originalWaypoints s))"
    using assms(1,2,6) by (simp add: filterEffect_def loop)
  show "AppState.footprints (filterEffect s)
           = Some (map ((!) fps)
               (keptPositions (keepStart (filterParams s)) (keepEnd (filterParams s)) 0
                  (map length (originalWaypoints s))))"
    using assms(1,2,6) by (simp add: filterEffect_def loop)
  show "AppState.waypoints (filterEffect s)
           = map ((!) (concat (originalWaypoints s)))
               (keptPositions (keepStart (filterParams s)) (keepEnd (filterParams s)) 0
                  (map length (originalWaypoints s)))"
    using keptPositions_flat [OF assms(4,5), of "[]" "originalWaypoints s"] a by simp
qed

lemma filterEffect_original:
  "originalWaypoints (filterEffect s) = originalWaypoints s"
  "originalFootprints (filterEffect s) = originalFootprints s"
  by (simp_all add: filterEffect_def split: option.splits prod.splits)

text \<open>
  Claim C5. For canonical lines with one footprint per flattened waypoint and keep
  counts that are not negative: with filtering disabled the active waypoints are the
  flattened lines and the active footprints the canonical ones; with filtering enabled
  the active waypoints are, line after line, the whole line when its length is at most
  \<open>keepStart + keepEnd\<close> and otherwise its first \<open>keepStart\<close> followed by its last
  \<open>keepEnd\<close> waypoints, and the active footprints are the canonical footprints at the
  flattened positions of the waypoints kept, in the same order; the canonical lines and
  footprints of the state are unchanged in both cases.
\<close>

theorem filter_view:
  assumes "originalWaypoints s \<noteq> []" and "originalFootprints s = Some fps"
    and "length fps = length (concat (originalWaypoints s))"
    and "0 \<le> keepStart (filterParams s)" and "0 \<le> keepEnd (filterParams s)"
    and "ks = keepStart (filterParams s)" and "ke = keepEnd (filterParams s)"
  shows "(\<not> enabled (filterParams s) \<longrightarrow>
            AppState.waypoints (filterEffect s) = concat (originalWaypoints s)
          \<and> AppState.footprints (filterEffect s) = Some fps)
       \<and> (enabled (filterParams s) \<longrightarrow>
            AppState.waypoints (filterEffect s)
              = concat (map (keepEnds ks ke) (originalWaypoints s))
          \<and> AppState.waypoints (filterEffect s)
              = map ((!) (concat (originalWaypoints s)))
                  (keptPositions ks ke 0 (map length (originalWaypoints s)))
          \<and> AppState.footprints (filterEffect s)
              = Some (map ((!) fps)
                  (keptPositions ks ke 0 (map length (originalWaypoints s)))))
       \<and> (\<forall>line :: Waypoint list.
            (int (length line) \<le> ks + ke \<longrightarrow> keepEnds ks ke line = line)
          \<and> (ks + ke < int (length line) \<longrightarrow>
               keepEnds ks ke line = take (nat ks) line @ drop (length line - nat ke) line
             \<and> length (keepEnds ks ke line) = nat ks + nat ke))
       \<and> originalWaypoints (filterEffect s) = originalWaypoints s
       \<and> originalFootprints (filterEffect s) = originalFootprints s"
proof -
  have a: "\<not> enabled (filterParams s) \<Longrightarrow>
      AppState.waypoints (filterEffect s) = concat (originalWaypoints s)
      \<and> AppState.footprints (filterEffect s) = Some fps"
    using filterEffect_disabled [OF assms(1,2)] by simp
  have b: "enabled (filterParams s) \<Longrightarrow>
      AppState.waypoints (filterEffect s)
              = concat (map (keepEnds ks ke) (originalWaypoints s))
          \<and> AppState.waypoints (filterEffect s)
              = map ((!) (concat (originalWaypoints s)))
                  (keptPositions ks ke 0 (map length (originalWaypoints s)))
          \<and> AppState.footprints (filterEffect s)
              = Some (map ((!) fps)
                  (keptPositions ks ke 0 (map length (originalWaypoints s))))"
    using filterEffect_enabled [OF assms(1-5)] unfolding assms(6,7) by simp
  have c: "\<And>line :: Waypoint list.
            (int (length line) \<le> ks + ke \<longrightarrow> keepEnds ks ke line = line)
          \<and> (ks + ke < int (length line) \<longrightarrow>
               keepEnds ks ke line = take (nat ks) line @ drop (length line - nat ke) line
             \<and> length (keepEnds ks ke line) = nat ks + nat ke)"
    using assms(4,5) unfolding assms(6,7) [symmetric]
    by (simp add: length_keepEnds) (simp add: keepEnds_def)
  from a b c filterEffect_original [of s] show ?thesis by blast
qed

lemma map_length_restructure:
  "i + length (concat ls) \<le> length f \<Longrightarrow> map length (restructure f i ls) = map length ls"
proof (induction ls arbitrary: i)
  case Nil
  then show ?case by simp
next
  case (Cons l ls)
  then have "(i + length l) + length (concat ls) \<le> length f" by simp
  from Cons.IH [OF this] Cons.prems show ?case by (simp add: slice_nat)
qed

lemma sample_line_lengths: "map length (FlightPlanResult.waypoints samplePlan) = [3, 3]"
  by (simp add: samplePlan_def map_length_restructure) (simp add: sampleByLine_def)

lemma sample_state:
  "originalWaypoints sampleState \<noteq> []"
  "originalFootprints sampleState = Some (FlightPlanResult.footprints samplePlan)"
  "length (FlightPlanResult.footprints samplePlan) = length (concat (originalWaypoints sampleState))"
  "0 \<le> keepStart (filterParams sampleState)" "0 \<le> keepEnd (filterParams sampleState)"
  "enabled (filterParams sampleState)"
  "originalWaypoints sampleState = FlightPlanResult.waypoints samplePlan"
proof -
  show "originalWaypoints sampleState \<noteq> []"
    using sample_line_lengths by (auto simp: sampleState_def)
  show "length (FlightPlanResult.footprints samplePlan)
          = length (concat (originalWaypoints sampleState))"
    by (simp add: sampleState_def sample_flat) (simp add: samplePlan_def)
qed (simp_all add: sampleState_def)

lemma sample_kept:
  "keptPositions 1 1 0 [3, 3] = [0, 2, 3, 5]"
proof -
  have "[0..<Suc 0] = [0]" "[2..<3] = [2]" "[3..<4] = [3]" "[5..<6] = [5]"
    by (simp_all add: upt_rec)
  then show ?thesis by simp
qed

text \<open>
  The sample plan with one waypoint kept at each end of its two lines of three.
\<close>

theorem filter_view_witness:
  "originalWaypoints sampleState \<noteq> []
   \<and> originalFootprints sampleState = Some (FlightPlanResult.footprints samplePlan)
   \<and> length (FlightPlanResult.footprints samplePlan)
       = length (concat (originalWaypoints sampleState))
   \<and> 0 \<le> keepStart (filterParams sampleState) \<and> 0 \<le> keepEnd (filterParams sampleState)
   \<and> enabled (filterParams sampleState)
   \<and> AppState.waypoints (filterEffect sampleState)
       = map ((!) (concat (originalWaypoints sampleState))) [0, 2, 3, 5]
   \<and> AppState.footprints (filterEffect sampleState)
       = Some (map ((!) (FlightPlanResult.footprints samplePlan)) [0, 2, 3, 5])
   \<and> originalWaypoints (filterEffect sampleState) = originalWaypoints sampleState
   \<and> originalFootprints (filterEffect sampleState) = originalFootprints sampleState"
proof -
  have k: "keptPositions (keepStart (filterParams sampleState)) (keepEnd (filterParams sampleState))
             0 (map length (originalWaypoints sampleState)) = [0, 2, 3, 5]"
    using sample_kept by (simp add: sample_state(7) sample_line_lengths) (simp add: sampleState_def)
  note v = filter_view [OF sample_state(1-5) refl refl]
  from v sample_state(6) have "AppState.waypoints (filterEffect sampleState)
      = map ((!) (concat (originalWaypoints sampleState)))
          (keptPositions (keepStart (filterParams sampleState))
             (keepEnd (filterParams sampleState)) 0
             (map length (originalWaypoints sampleState)))"
    by blast
  moreover from v sample_state(6) have "AppState.footprints (filterEffect sampleState)
      = Some (map ((!) (FlightPlanResult.footprints samplePlan))
          (keptPositions (keepStart (filterParams sampleState))
             (keepEnd (filterParams sampleState)) 0
             (map length (originalWaypoints sampleState))))"
    by blast
  moreover from v have "originalWaypoints (filterEffect sampleState) = originalWaypoints sampleState"
    and "originalFootprints (filterEffect sampleState) = originalFootprints sampleState"
    by blast+
  ultimately show ?thesis unfolding k using sample_state(1-6) by simp
qed

section \<open>Waypoints and footprints in pairs\<close>

lemma map_positionOf_formatted:
  "map positionOf (formattedWaypoints t fp final) = final"
  by (simp add: list_eq_iff_nth_eq nth_formattedWaypoints)

lemma footprintPolygons_nth:
  "i < length final \<Longrightarrow>
   footprintPolygons t w h final ! i
     = footprintPoly t w h (final ! i) (rawHeading t final i)"
  by (simp add: footprintPolygons_def)

lemma footprintPoly_closed:
  "length (footprintPoly t w h p b) = 5 \<and> hd (footprintPoly t w h p b) = last (footprintPoly t w h p b)"
  by (simp add: footprintPoly_def Let_def)

text \<open>
  Claim C9. A returned plan has one footprint per flattened waypoint; the footprint at
  position \<open>i\<close> is the ring of five positions, the last equal to the first, built
  around waypoint \<open>i\<close> along its bearing; and the filter, disabled or enabled with keep
  counts that are not negative, keeps waypoints and footprints at one and the same list
  of flattened positions.
\<close>

theorem pairing_invariant:
  assumes "generateFlightPlan t g fp cp = Some (Inr plan)"
    and "flat = concat (FlightPlanResult.waypoints plan)"
    and "originalWaypoints s = FlightPlanResult.waypoints plan"
    and "originalFootprints s = Some (FlightPlanResult.footprints plan)"
    and "0 \<le> keepStart (filterParams s)" and "0 \<le> keepEnd (filterParams s)"
  shows "length (FlightPlanResult.footprints plan) = length flat
       \<and> (\<forall>i < length flat.
            FlightPlanResult.footprints plan ! i
              = footprintPoly t (footprintWidth fp cp) (footprintHeight fp cp)
                  (positionOf (flat ! i)) (rawHeading t (map positionOf flat) i)
          \<and> length (FlightPlanResult.footprints plan ! i) = 5
          \<and> hd (FlightPlanResult.footprints plan ! i)
              = last (FlightPlanResult.footprints plan ! i))
       \<and> (\<exists>kept. (\<forall>k \<in> set kept. k < length flat)
            \<and> AppState.waypoints (filterEffect s) = map ((!) flat) kept
            \<and> AppState.footprints (filterEffect s)
                = Some (map ((!) (FlightPlanResult.footprints plan)) kept))"
proof -
  from assms(1) obtain final where ne: "final \<noteq> []"
    and wps: "concat (FlightPlanResult.waypoints plan) = formattedWaypoints t fp final"
    and fps: "FlightPlanResult.footprints plan =
           footprintPolygons t (footprintWidth fp cp) (footprintHeight fp cp) final"
    by (rule generateFlightPlan_Inr)
  have flat: "flat = formattedWaypoints t fp final" using assms(2) wps by simp
  have len: "length (FlightPlanResult.footprints plan) = length flat"
    by (simp add: flat fps)
  have pos: "map positionOf flat = final" by (simp add: flat map_positionOf_formatted)
  have each: "\<And>i. i < length flat \<Longrightarrow>
      FlightPlanResult.footprints plan ! i
        = footprintPoly t (footprintWidth fp cp) (footprintHeight fp cp)
            (positionOf (flat ! i)) (rawHeading t (map positionOf flat) i)
      \<and> length (FlightPlanResult.footprints plan ! i) = 5
      \<and> hd (FlightPlanResult.footprints plan ! i)
          = last (FlightPlanResult.footprints plan ! i)"
  proof -
    fix i assume i: "i < length flat"
    then have "i < length final" by (simp add: flat)
    then have "FlightPlanResult.footprints plan ! i
        = footprintPoly t (footprintWidth fp cp) (footprintHeight fp cp) (final ! i)
            (rawHeading t final i)"
      by (simp add: fps footprintPolygons_nth)
    moreover have "final ! i = positionOf (flat ! i)"
      using i pos by (metis length_map nth_map)
    ultimately show "FlightPlanResult.footprints plan ! i
        = footprintPoly t (footprintWidth fp cp) (footprintHeight fp cp)
            (positionOf (flat ! i)) (rawHeading t (map positionOf flat) i)
      \<and> length (FlightPlanResult.footprints plan ! i) = 5
      \<and> hd (FlightPlanResult.footprints plan ! i)
          = last (FlightPlanResult.footprints plan ! i)"
      using footprintPoly_closed by (simp add: pos)
  qed
  have lines: "originalWaypoints s \<noteq> []"
    using assms(3) wps ne by (auto simp: formattedWaypoints_def)
  have al: "length (FlightPlanResult.footprints plan) = length (concat (originalWaypoints s))"
    using len assms(2,3) by simp
  have filt: "\<exists>kept. (\<forall>k \<in> set kept. k < length flat)
            \<and> AppState.waypoints (filterEffect s) = map ((!) flat) kept
            \<and> AppState.footprints (filterEffect s)
                = Some (map ((!) (FlightPlanResult.footprints plan)) kept)"
  proof (cases "enabled (filterParams s)")
    case False
    have "AppState.waypoints (filterEffect s) = map ((!) flat) [0..<length flat]"
      using filterEffect_disabled(1) [OF lines assms(4) False] assms(2,3)
      by (simp add: map_nth)
    moreover have "AppState.footprints (filterEffect s)
        = Some (map ((!) (FlightPlanResult.footprints plan)) [0..<length flat])"
      using filterEffect_disabled(2) [OF lines assms(4) False] len [symmetric]
      by (simp add: map_nth)
    ultimately show ?thesis by (intro exI [of _ "[0..<length flat]"]) simp
  next
    case True
    let ?kept = "keptPositions (keepStart (filterParams s)) (keepEnd (filterParams s)) 0
                  (map length (originalWaypoints s))"
    have "\<forall>k \<in> set ?kept. k < length flat"
      using keptPositions_bound [OF assms(5,6), of 0 "map length (originalWaypoints s)"]
        assms(2,3) by (simp add: length_concat)
    then show ?thesis
      using filterEffect_enabled(2,3) [OF lines assms(4) al assms(5,6) True] assms(2,3)
      by (intro exI [of _ ?kept]) simp
  qed
  from len each filt show ?thesis by blast
qed

text \<open>
  The sample plan: six waypoints, six footprints, the first footprint around the
  origin, and the filtered view of the sample state.
\<close>

theorem pairing_invariant_witness:
  "generateFlightPlan planarTurf sampleBox sampleFlight sampleCamera = Some (Inr samplePlan)
   \<and> originalWaypoints sampleState = FlightPlanResult.waypoints samplePlan
   \<and> originalFootprints sampleState = Some (FlightPlanResult.footprints samplePlan)
   \<and> 0 \<le> keepStart (filterParams sampleState) \<and> 0 \<le> keepEnd (filterParams sampleState)
   \<and> length (FlightPlanResult.footprints samplePlan) = 6
   \<and> length (concat (FlightPlanResult.waypoints samplePlan)) = 6
   \<and> FlightPlanResult.footprints samplePlan ! 0
       = [(3 / 8000, 1 / 2000), (3 / 8000, - (1 / 2000)), (- (3 / 8000), - (1 / 2000)),
          (- (3 / 8000), 1 / 2000), (3 / 8000, 1 / 2000)]
   \<and> (\<exists>kept. AppState.waypoints (filterEffect sampleState)
                 = map ((!) (concat (FlightPlanResult.waypoints samplePlan))) kept
            \<and> AppState.footprints (filterEffect sampleState)
                 = Some (map ((!) (FlightPlanResult.footprints samplePlan)) kept))"
proof -
  note p = pairing_invariant [OF sample_run refl sample_state(7,2,4,5)]
  have n: "length (concat (FlightPlanResult.waypoints samplePlan)) = 6"
    by (simp add: sample_flat sampleByLine_def)
  have f0: "FlightPlanResult.footprints samplePlan ! 0
       = [(3 / 8000, 1 / 2000), (3 / 8000, - (1 / 2000)), (- (3 / 8000), - (1 / 2000)),
          (- (3 / 8000), 1 / 2000), (3 / 8000, 1 / 2000)]"
    by (simp add: samplePlan_def footprintPolygons_nth sampleByLine_def)
       (simp add: footprintPoly_def rawHeading_def nextWp_def Let_def planarTurf_def
          planarBearing_def planarDestination_def)
  from p have "\<exists>kept. AppState.waypoints (filterEffect sampleState)
                 = map ((!) (concat (FlightPlanResult.waypoints samplePlan))) kept
            \<and> AppState.footprints (filterEffect sampleState)
                 = Some (map ((!) (FlightPlanResult.footprints samplePlan)) kept)"
    by blast
  moreover from p have "length (FlightPlanResult.footprints samplePlan)
      = length (concat (FlightPlanResult.waypoints samplePlan))" by blast
  ultimately show ?thesis using sample_run sample_state n f0 by simp
qed

section \<open>Elevations in batches\<close>

lemma storeBatch_eq:
  "i + idx + length es \<le> length a \<Longrightarrow>
   storeBatch a i idx es = take (i + idx) a @ es @ drop (i + idx + length es) a"
proof (induction es arbitrary: a idx)
  case Nil
  then show ?case by simp
next
  case (Cons e es)
  then have lt: "i + idx < length a" by simp
  have len: "i + (idx + 1) + length es \<le> length (a[i + idx := e])" using Cons.prems by simp
  have "take (Suc (i + idx)) (a[i + idx := e]) = take (i + idx) a @ [e]"
    using lt by (simp add: take_Suc_conv_app_nth)
  moreover have "drop (Suc (i + idx + length es)) (a[i + idx := e])
      = drop (Suc (i + idx + length es)) a"
    by simp
  ultimately show ?case using Cons.IH [OF len] by simp
qed

lemma length_storeBatch [simp]: "length (storeBatch a i idx es) = length a"
  by (induction es arbitrary: a idx) auto

lemma storeBatch_nth:
  assumes "i + length es \<le> length a" and "j < length a"
  shows "storeBatch a i 0 es ! j = (if i \<le> j \<and> j < i + length es then es ! (j - i) else a ! j)"
proof -
  have eq: "storeBatch a i 0 es = take i a @ es @ drop (i + length es) a"
    using storeBatch_eq [of i 0 es a] assms(1) by simp
  show ?thesis unfolding eq using assms by (auto simp: nth_append)
qed

lemma slice_batch: "slice wps (int i) (int (i + BATCH_SIZE)) = take 50 (drop i wps)"
  using slice_nat [of wps i 50] by (simp add: BATCH_SIZE_def)

lemma afterBatch_alt:
  "afterBatch fetch wps i a =
     (case fetch i (take 50 (drop i wps)) of
        Body (Some es) \<Rightarrow>
          if length es \<noteq> length (take 50 (drop i wps)) then a else storeBatch a i 0 es
      | _ \<Rightarrow> a)"
  unfolding afterBatch_def slice_batch Let_def
  by (simp split: fetchResult.splits option.splits)

lemma length_afterBatch [simp]: "length (afterBatch fetch wps i a) = length a"
  by (simp add: afterBatch_alt split: fetchResult.splits option.splits)

lemma afterBatch_nth:
  assumes "length a = length wps" and "j < length wps" and "i < length wps"
    and "\<forall>k. i \<le> k \<and> k < length wps \<longrightarrow> a ! k = None"
  shows "afterBatch fetch wps i a ! j =
           (if i \<le> j \<and> j < i + 50 then batchElevations fetch wps i ! (j - i) else a ! j)"
proof -
  let ?batch = "take 50 (drop i wps)"
  have lb: "length ?batch = min 50 (length wps - i)" by simp
  have none: "i \<le> j \<Longrightarrow> j < i + 50 \<Longrightarrow> a ! j = replicate (length ?batch) None ! (j - i)"
  proof -
    assume ij: "i \<le> j" "j < i + 50"
    then have "j - i < length ?batch" using assms(2) by auto
    then show ?thesis using ij assms(2,4) by simp
  qed
  show ?thesis
  proof (cases "fetch i ?batch")
    case NetworkError
    then show ?thesis using none by (simp add: afterBatch_alt batchElevations_def)
  next
    case HttpError
    then show ?thesis using none by (simp add: afterBatch_alt batchElevations_def)
  next
    case (Body payload)
    show ?thesis
    proof (cases payload)
      case None
      then show ?thesis
        using Body none by (simp add: afterBatch_alt batchElevations_def)
    next
      case (Some es)
      show ?thesis
      proof (cases "length es = length ?batch")
        case False
        then show ?thesis
          using Body Some none by (simp add: afterBatch_alt batchElevations_def)
      next
        case True
        then have fit: "i + length es \<le> length a" using assms(1,3) by simp
        have j: "j < length a" using assms(1,2) by simp
        have "i \<le> j \<and> j < i + length es \<longleftrightarrow> i \<le> j \<and> j < i + 50"
          using True assms(2) by auto
        then show ?thesis
          using Body Some True storeBatch_nth [OF fit j]
          by (simp add: afterBatch_alt batchElevations_def)
      qed
    qed
  qed
qed

lemma getElevationsLoop_step:
  "getElevationsLoop fetch wps i a =
     (if i < length wps then getElevationsLoop fetch wps (i + 50) (afterBatch fetch wps i a)
      else a)"
  by (subst getElevationsLoop.simps) (simp add: afterBatch_def BATCH_SIZE_def)

lemma getElevationsLoop_nth:
  assumes "length a = length wps"
    and "\<forall>k. i \<le> k \<and> k < length wps \<longrightarrow> a ! k = None"
  shows "length (getElevationsLoop fetch wps i a) = length wps
       \<and> (\<forall>j < length wps. getElevationsLoop fetch wps i a ! j =
             (if j < i then a ! j
              else batchElevations fetch wps (i + 50 * ((j - i) div 50)) ! ((j - i) mod 50)))"
  using assms
proof (induction "length wps - i" arbitrary: i a rule: less_induct)
  case less
  show ?case
  proof (cases "i < length wps")
    case False
    then show ?thesis using less.prems by (simp add: getElevationsLoop_step)
  next
    case True
    let ?a = "afterBatch fetch wps i a"
    have la: "length ?a = length wps" using less.prems(1) by simp
    have nth: "\<And>j. j < length wps \<Longrightarrow> ?a ! j =
        (if i \<le> j \<and> j < i + 50 then batchElevations fetch wps i ! (j - i) else a ! j)"
      using afterBatch_nth [OF less.prems(1) _ True less.prems(2)] by simp
    have none: "\<forall>k. i + 50 \<le> k \<and> k < length wps \<longrightarrow> ?a ! k = None"
      using nth less.prems(2) by simp
    have dec: "length wps - (i + 50) < length wps - i" using True by simp
    note IH = less.hyps [OF dec la none]
    have step: "getElevationsLoop fetch wps i a = getElevationsLoop fetch wps (i + 50) ?a"
      using True by (simp add: getElevationsLoop_step)
    have "\<And>j. j < length wps \<Longrightarrow> getElevationsLoop fetch wps i a ! j =
             (if j < i then a ! j
              else batchElevations fetch wps (i + 50 * ((j - i) div 50)) ! ((j - i) mod 50))"
    proof -
      fix j assume j: "j < length wps"
      consider "j < i" | "i \<le> j" "j < i + 50" | "i + 50 \<le> j" by linarith
      then show "getElevationsLoop fetch wps i a ! j =
             (if j < i then a ! j
              else batchElevations fetch wps (i + 50 * ((j - i) div 50)) ! ((j - i) mod 50))"
      proof cases
        case 1
        then show ?thesis using IH j nth by (simp add: step)
      next
        case 2
        then have "(j - i) div 50 = 0" "(j - i) mod 50 = j - i" by simp_all
        then show ?thesis using IH j nth 2 by (simp add: step)
      next
        case 3
        then have "(j - i) div 50 = Suc ((j - (i + 50)) div 50)"
          and "(j - i) mod 50 = (j - (i + 50)) mod 50"
          by (simp_all add: le_div_geq le_mod_geq)
        then show ?thesis using IH j 3 by (simp add: step add.assoc)
      qed
    qed
    then show ?thesis using IH by (simp add: step)
  qed
qed

lemma getElevations_nth:
  "length (getElevations fetch wps) = length wps
   \<and> (\<forall>j < length wps.
        getElevations fetch wps ! j
          = batchElevations fetch wps (50 * (j div 50)) ! (j mod 50))"
proof (cases "wps = []")
  case True
  then show ?thesis by (simp add: getElevations_def)
next
  case False
  have "length (replicate (length wps) (None :: real option)) = length wps" by simp
  moreover have "\<forall>k. 0 \<le> k \<and> k < length wps \<longrightarrow>
      replicate (length wps) (None :: real option) ! k = None" by simp
  ultimately have "length (getElevationsLoop fetch wps 0 (replicate (length wps) None))
        = length wps
     \<and> (\<forall>j < length wps. getElevationsLoop fetch wps 0 (replicate (length wps) None) ! j =
             (if j < 0 then replicate (length wps) None ! j
              else batchElevations fetch wps (0 + 50 * ((j - 0) div 50)) ! ((j - 0) mod 50)))"
    by (rule getElevationsLoop_nth)
  then show ?thesis using False by (simp add: getElevations_def)
qed

lemma getElevations_length: "length (getElevations fetch wps) = length wps"
  using getElevations_nth [of fetch wps] by simp

text \<open>
  Claim C7. The result has one entry per waypoint, in the order of the waypoints:
  entry \<open>j\<close> is entry \<open>j mod 50\<close> of what the batch starting at \<open>50 * (j div 50)\<close>
  contributes. A batch contributes its payload when the request succeeded with as many
  entries as the batch has positions, and unknown entries for exactly its own positions
  otherwise, whatever happened to the batches before it. The function is total: no
  answer of the service makes it fail. No waypoints give no entries.
\<close>

theorem getElevations_batches:
  "length (getElevations fetch wps) = length wps
   \<and> (\<forall>j < length wps.
        getElevations fetch wps ! j
          = batchElevations fetch wps (50 * (j div 50)) ! (j mod 50))
   \<and> (\<forall>start. batchElevations fetch wps start =
        (case fetch start (take 50 (drop start wps)) of
           Body (Some es) \<Rightarrow>
             if length es = length (take 50 (drop start wps)) then es
             else replicate (length (take 50 (drop start wps))) None
         | _ \<Rightarrow> replicate (length (take 50 (drop start wps))) None))
   \<and> getElevations fetch [] = []"
proof -
  have unfolded: "\<forall>start. batchElevations fetch wps start =
        (case fetch start (take 50 (drop start wps)) of
           Body (Some es) \<Rightarrow>
             if length es = length (take 50 (drop start wps)) then es
             else replicate (length (take 50 (drop start wps))) None
         | _ \<Rightarrow> replicate (length (take 50 (drop start wps))) None)"
    by (simp add: batchElevations_def Let_def)
  have empty: "getElevations fetch [] = []" by (simp add: getElevations_def)
  from getElevations_nth [of fetch wps] unfolded empty show ?thesis by blast
qed

text \<open>
  Fifty-one waypoints with a first request that fails and a second that succeeds: the
  first fifty entries are unknown, the last is the elevation returned.
\<close>

theorem getElevations_batches_witness:
  "length (getElevations sampleFetch (replicate 51 sampleWaypoint)) = 51
   \<and> getElevations sampleFetch (replicate 51 sampleWaypoint) ! 0 = None
   \<and> getElevations sampleFetch (replicate 51 sampleWaypoint) ! 49 = None
   \<and> getElevations sampleFetch (replicate 51 sampleWaypoint) ! 50 = Some 12"
proof -
  note g = getElevations_batches [of sampleFetch "replicate 51 sampleWaypoint"]
  have b0: "batchElevations sampleFetch (replicate 51 sampleWaypoint) 0 = replicate 50 None"
    by (simp add: batchElevations_def sampleFetch_def)
  have b1: "batchElevations sampleFetch (replicate 51 sampleWaypoint) 50 = [Some 12]"
    by (simp add: batchElevations_def sampleFetch_def)
  from g have l: "length (getElevations sampleFetch (replicate 51 sampleWaypoint)) = 51"
    by simp
  from g have n: "\<And>j. j < 51 \<Longrightarrow>
      getElevations sampleFetch (replicate 51 sampleWaypoint) ! j
        = batchElevations sampleFetch (replicate 51 sampleWaypoint) (50 * (j div 50)) ! (j mod 50)"
    by simp
  from n [of 0] n [of 49] n [of 50] l show ?thesis by (simp add: b0 b1)
qed

section \<open>Rounding to binary64\<close>

text \<open>Evaluation of \<open>binary64\<close> at numerals.\<close>

lemma ilog2_small [simp]: "ilog2 0 = 0" "ilog2 (Suc 0) = 0"
  by (simp_all add: ilog2.simps [of 0] ilog2.simps [of "Suc 0"])

lemma ilog2_numeral [simp]:
  "ilog2 (numeral k) = (if numeral k < (2::nat) then 0 else Suc (ilog2 (numeral k div 2)))"
  by (rule ilog2.simps)

lemmas binary64_eval = binary64_def exponent_def pow2_def roundHalfEven_def

text \<open>
  The rounded value is a multiple of the unit in the last place, at most half a unit
  away from the number; the unit is \<open>pow2 (e - 52)\<close> where \<open>pow2 e \<le> \<bar>x\<bar> < 2 * pow2 e\<close>,
  and \<open>pow2 (- 1074)\<close> below the normal range. Rounding keeps a number that is not
  negative so.
\<close>

lemma pow2_pos: "0 < pow2 k"
  by (simp add: pow2_def)

lemma roundHalfEven_nonneg: "0 \<le> y \<Longrightarrow> 0 \<le> roundHalfEven y"
proof -
  assume "0 \<le> y"
  then have "0 \<le> \<lfloor>y\<rfloor>" by simp
  then show ?thesis by (simp add: roundHalfEven_def Let_def)
qed

lemma roundHalfEven_close: "\<bar>of_int (roundHalfEven y) - y\<bar> \<le> 1 / 2"
proof -
  have "of_int \<lfloor>y\<rfloor> \<le> y" "y < of_int \<lfloor>y\<rfloor> + 1" by linarith+
  then show ?thesis by (auto simp: roundHalfEven_def Let_def)
qed

lemma binary64_nonneg: "0 \<le> x \<Longrightarrow> 0 \<le> binary64 x"
proof (cases "x = 0")
  case True
  then show ?thesis by (simp add: binary64_def)
next
  case False
  assume "0 \<le> x"
  define ulp where "ulp = pow2 (max (exponent x) (- 1022) - 52)"
  have u: "0 < ulp" by (simp add: ulp_def pow2_pos)
  then have "0 \<le> x / ulp" using \<open>0 \<le> x\<close> by simp
  then have "0 \<le> roundHalfEven (x / ulp)" by (rule roundHalfEven_nonneg)
  then have "0 \<le> of_int (roundHalfEven (x / ulp)) * ulp" using u by simp
  then show ?thesis using False by (simp add: binary64_def Let_def ulp_def)
qed

lemma binary64_close:
  "\<bar>binary64 x - x\<bar> \<le> pow2 (max (exponent x) (- 1022) - 52) / 2"
proof (cases "x = 0")
  case True
  then show ?thesis using pow2_pos [of "max (exponent x) (- 1022) - 52"] by (simp add: binary64_def)
next
  case False
  define ulp where "ulp = pow2 (max (exponent x) (- 1022) - 52)"
  have u: "0 < ulp" by (simp add: ulp_def pow2_pos)
  have "\<bar>of_int (roundHalfEven (x / ulp)) - x / ulp\<bar> * ulp \<le> 1 / 2 * ulp"
    using roundHalfEven_close [of "x / ulp"] u by (intro mult_right_mono) simp_all
  moreover have "\<bar>of_int (roundHalfEven (x / ulp)) - x / ulp\<bar> * ulp
      = \<bar>of_int (roundHalfEven (x / ulp)) * ulp - x\<bar>"
  proof -
    have "\<bar>of_int (roundHalfEven (x / ulp)) - x / ulp\<bar> * ulp
        = \<bar>(of_int (roundHalfEven (x / ulp)) - x / ulp) * ulp\<bar>"
      using u by (simp add: abs_mult)
    also have "(of_int (roundHalfEven (x / ulp)) - x / ulp) * ulp
        = of_int (roundHalfEven (x / ulp)) * ulp - x"
      using u by (simp add: field_simps)
    finally show ?thesis .
  qed
  ultimately show ?thesis using False by (simp add: binary64_def Let_def ulp_def)
qed

lemma ilog2_bounds: "0 < n \<Longrightarrow> 2 ^ ilog2 n \<le> n \<and> n < 2 * 2 ^ ilog2 n"
proof (induction n rule: ilog2.induct)
  case (1 n)
  show ?case
  proof (cases "n < 2")
    case True
    then have "n = 1" using 1(2) by simp
    then show ?thesis by (simp add: ilog2.simps [of 1])
  next
    case False
    then have "0 < n div 2" by simp
    from 1(1) [OF False this] have "2 ^ ilog2 (n div 2) \<le> n div 2"
      and "n div 2 < 2 * 2 ^ ilog2 (n div 2)" by simp_all
    then have "2 * 2 ^ ilog2 (n div 2) \<le> n" "n < 2 * (2 * 2 ^ ilog2 (n div 2))"
      by linarith+
    then show ?thesis using False by (simp add: ilog2.simps [of n])
  qed
qed

lemma exponent_bounds:
  assumes "x \<noteq> 0"
  shows "pow2 (exponent x) \<le> \<bar>x\<bar> \<and> \<bar>x\<bar> < 2 * pow2 (exponent x)"
proof (cases "1 \<le> \<bar>x\<bar>")
  case True
  define n where "n = nat \<lfloor>\<bar>x\<bar>\<rfloor>"
  have n: "0 < n" using True by (simp add: n_def)
  have "real n = of_int \<lfloor>\<bar>x\<bar>\<rfloor>" by (simp add: n_def)
  then have r: "real n \<le> \<bar>x\<bar>" "\<bar>x\<bar> < real n + 1" by linarith+
  from ilog2_bounds [OF n] have "2 ^ ilog2 n \<le> n" and "n + 1 \<le> 2 * 2 ^ ilog2 n" by simp_all
  then have "(2::real) ^ ilog2 n \<le> real n" and "real n + 1 \<le> 2 * 2 ^ ilog2 n"
    by (metis of_nat_le_iff of_nat_numeral of_nat_power, 
        metis (mono_tags, opaque_lifting) of_nat_le_iff of_nat_numeral of_nat_power of_nat_mult of_nat_add of_nat_1)
  then have "(2::real) ^ ilog2 n \<le> \<bar>x\<bar>" "\<bar>x\<bar> < 2 * 2 ^ ilog2 n" using r by linarith+
  then show ?thesis using True by (simp add: exponent_def pow2_def n_def)
next
  case False
  define y where "y = 1 / \<bar>x\<bar>"
  define c where "c = nat \<lceil>y\<rceil>"
  have x: "0 < \<bar>x\<bar>" "\<bar>x\<bar> < 1" using assms False by simp_all
  then have y: "1 < y" by (simp add: y_def)
  then have c2: "2 \<le> c" unfolding c_def by linarith
  have "real c = of_int \<lceil>y\<rceil>" using y by (simp add: c_def)
  then have cy: "real c - 1 < y" "y \<le> real c" by linarith+
  define k where "k = ilog2 (c - 1)"
  have "0 < c - 1" using c2 by simp
  from ilog2_bounds [OF this] have "2 ^ k \<le> c - 1" and "c - 1 < 2 * 2 ^ k"
    unfolding k_def by simp_all
  then have "2 ^ k \<le> c - 1" and "c \<le> 2 * 2 ^ k" by linarith+
  then have "(2::real) ^ k \<le> real c - 1" and "real c \<le> 2 * 2 ^ k"
    using c2
    by (metis of_nat_le_iff of_nat_numeral of_nat_power of_nat_diff of_nat_1 Suc_1 Suc_leD One_nat_def,
        metis (mono_tags, opaque_lifting) of_nat_le_iff of_nat_numeral of_nat_power of_nat_mult)
  then have b: "(2::real) ^ k < y" "y \<le> 2 * 2 ^ k" using cy by linarith+
  have p: "(0::real) < 2 ^ k" by simp
  have xy: "\<bar>x\<bar> = 1 / y" using x by (simp add: y_def)
  have "1 / (2 * 2 ^ k) \<le> 1 / y" using b(2) y by (intro frac_le) simp_all
  moreover have "1 / y < 1 / 2 ^ k" using b(1) p by (intro frac_less2) simp_all
  ultimately have "1 / (2 * 2 ^ k) \<le> \<bar>x\<bar>" "\<bar>x\<bar> < 1 / 2 ^ k"
    unfolding xy by simp_all
  moreover have "\<not> c \<le> 1" using c2 by simp
  then have "exponent x = - int (Suc k)"
    unfolding exponent_def k_def c_def y_def using False by (simp only: if_False)
  moreover have "nat (int k + 1) = Suc k" by simp
  then have "pow2 (- int (Suc k)) = 1 / (2 * 2 ^ k)"
    by (simp add: pow2_def)
  ultimately show ?thesis by simp
qed

section \<open>Terrain data merged into the altitudes\<close>

lemma mergeWaypoint_in_range:
  "idx < length el \<Longrightarrow> mergeWaypoint el alt idx wp = Some (mergedWaypoint (el ! idx) alt wp)"
  by (cases "el ! idx") (simp_all add: mergeWaypoint_def index_def)

lemma mergeLine_eq:
  "idx + length line \<le> length el \<Longrightarrow>
   mergeLine el alt idx line =
     Some (map (\<lambda>k. mergedWaypoint (el ! (idx + k)) alt (line ! k)) [0..<length line])"
proof (induction line arbitrary: idx)
  case Nil
  then show ?case by simp
next
  case (Cons wp rest)
  then have a: "idx < length el" and b: "(idx + 1) + length rest \<le> length el" by simp_all
  have "[0..<length (wp # rest)] = 0 # map Suc [0..<length rest]"
    by (simp add: upt_conv_Cons map_Suc_upt del: upt_Suc)
  then show ?case
    using Cons.IH [OF b] a by (simp add: mergeWaypoint_in_range del: upt_Suc)
qed

lemma mergeLines_eq:
  "idx + length (concat lines) \<le> length el \<Longrightarrow>
   \<exists>r. mergeLines el alt idx lines = Some r
     \<and> map length r = map length lines
     \<and> concat r = map (\<lambda>k. mergedWaypoint (el ! (idx + k)) alt (concat lines ! k))
                     [0..<length (concat lines)]"
proof (induction lines arbitrary: idx)
  case Nil
  then show ?case by simp
next
  case (Cons line rest)
  then have a: "idx + length line \<le> length el"
    and b: "(idx + length line) + length (concat rest) \<le> length el" by simp_all
  from Cons.IH [OF b] obtain r where r: "mergeLines el alt (idx + length line) rest = Some r"
    and rl: "map length r = map length rest"
    and rc: "concat r = map (\<lambda>k. mergedWaypoint (el ! (idx + length line + k)) alt
                                    (concat rest ! k)) [0..<length (concat rest)]"
    by blast
  let ?f = "\<lambda>k. mergedWaypoint (el ! (idx + k)) alt ((line @ concat rest) ! k)"
  have "[0..<length line + length (concat rest)]
      = [0..<length line] @ map (\<lambda>k. length line + k) [0..<length (concat rest)]"
    using upt_add_eq_append [of 0 "length line" "length (concat rest)"]
      map_add_upt [of "length line" "length (concat rest)"]
    by (simp add: add.commute)
  then have "map ?f [0..<length line + length (concat rest)]
      = map (\<lambda>k. mergedWaypoint (el ! (idx + k)) alt (line ! k)) [0..<length line] @ concat r"
    by (simp add: rc nth_append comp_def add.assoc)
  then show ?case using r rl by (simp add: mergeLine_eq [OF a])
qed

lemma hundredths_close: "\<bar>real (hundredths x) / 100 - \<bar>x\<bar>\<bar> \<le> 1 / 200"
proof -
  define y where "y = \<bar>x\<bar> * 100"
  define n where "n = \<lfloor>y + 1 / 2\<rfloor>"
  have "0 \<le> y" by (simp add: y_def)
  then have nn: "0 \<le> n" unfolding n_def by (simp add: zero_le_floor)
  have h: "real (hundredths x) = of_int n" using nn by (simp add: hundredths_def n_def y_def)
  have "of_int n \<le> y + 1 / 2" and "y + 1 / 2 < of_int n + 1"
    unfolding n_def by linarith+
  then have "\<bar>of_int n - y\<bar> \<le> 1 / 2" by linarith
  then show ?thesis unfolding h y_def by linarith
qed

lemma toFixed2Number_nearest:
  "\<exists>n :: int. toFixed2Number x = binary64 (of_int n / 100) \<and> \<bar>of_int n / 100 - x\<bar> \<le> 1 / 200"
proof (cases "x < 0")
  case True
  have "toFixed2Number x = binary64 (of_int (- int (hundredths x)) / 100)"
    using True by (simp add: toFixed2Number_def)
  moreover have "\<bar>of_int (- int (hundredths x)) / 100 - x\<bar> \<le> 1 / 200"
  proof -
    have "of_int (- int (hundredths x)) / 100 = - (real (hundredths x) / 100)" by simp
    with hundredths_close [of x] True show ?thesis by linarith
  qed
  ultimately show ?thesis by blast
next
  case False
  have "toFixed2Number x = binary64 (of_int (int (hundredths x)) / 100)"
    using False by (simp add: toFixed2Number_def)
  moreover have "\<bar>of_int (int (hundredths x)) / 100 - x\<bar> \<le> 1 / 200"
  proof -
    have "of_int (int (hundredths x)) / 100 = real (hundredths x) / 100" by simp
    with hundredths_close [of x] False show ?thesis by linarith
  qed
  ultimately show ?thesis by blast
qed

lemma terrain_merge_state:
  assumes "flat = concat (originalWaypoints s)"
    and "alt = FlightParams.altitude (flightParams s)"
  shows "\<exists>s'. handleFetchTerrainData fetch s = Some s'
          \<and> map length (originalWaypoints s') = map length (originalWaypoints s)
          \<and> length (concat (originalWaypoints s')) = length flat
          \<and> (\<forall>i < length flat.
                concat (originalWaypoints s') ! i
                  = mergedWaypoint (getElevations fetch flat ! i) alt (flat ! i))
          \<and> AppState.waypoints s' = AppState.waypoints s
          \<and> AppState.footprints s' = AppState.footprints s
          \<and> originalFootprints s' = originalFootprints s"
proof (cases "flat = []")
  case True
  then have "handleFetchTerrainData fetch s = Some s"
    using assms(1) by (simp add: handleFetchTerrainData_def)
  moreover have "length (concat (originalWaypoints s)) = length flat" using assms(1) by simp
  moreover have "\<forall>i < length flat. concat (originalWaypoints s) ! i
      = mergedWaypoint (getElevations fetch flat ! i) alt (flat ! i)"
    using True by simp
  ultimately show ?thesis by (intro exI [of _ s]) simp
next
  case False
  have len: "length (getElevations fetch flat) = length flat"
    using getElevations_length [of fetch flat] by simp
  then have "0 + length (concat (originalWaypoints s)) \<le> length (getElevations fetch flat)"
    using assms(1) by simp
  from mergeLines_eq [OF this, of alt] obtain r where
    r: "mergeLines (getElevations fetch flat) alt 0 (originalWaypoints s) = Some r"
    and rl: "map length r = map length (originalWaypoints s)"
    and rc: "concat r = map (\<lambda>k. mergedWaypoint (getElevations fetch flat ! (0 + k)) alt
                                  (concat (originalWaypoints s) ! k))
                          [0..<length (concat (originalWaypoints s))]"
    by blast
  have "length (concat (originalWaypoints s)) \<noteq> 0" using False assms(1) by simp
  then have "handleFetchTerrainData fetch s = Some (s\<lparr>originalWaypoints := r\<rparr>)"
    unfolding handleFetchTerrainData_def Let_def assms(1,2) [symmetric] r
    by (simp only: if_False option.case)
  then show ?thesis using rl rc assms(1) by simp
qed

text \<open>
  Claim C6. Fetching terrain data always yields a state; its canonical lines have the
  lengths they had, and the waypoint at flattened position \<open>i\<close> is the one before
  merged with entry \<open>i\<close> of the elevations fetched for the flattened canonical
  waypoints: unchanged for an unknown elevation, and for an elevation \<open>e\<close> with altitude
  the binary64 sum of \<open>e\<close> and the altitude of the flight parameters, rounded to
  hundredths. The filtered view and the canonical footprints are not touched. The
  rounded value is the double nearest to a whole number of hundredths that is at most
  half a hundredth away from the sum.
\<close>

theorem terrain_merge:
  assumes "flat = concat (originalWaypoints s)"
    and "alt = FlightParams.altitude (flightParams s)"
  shows "(\<exists>s'. handleFetchTerrainData fetch s = Some s'
          \<and> map length (originalWaypoints s') = map length (originalWaypoints s)
          \<and> length (concat (originalWaypoints s')) = length flat
          \<and> (\<forall>i < length flat.
                concat (originalWaypoints s') ! i
                  = mergedWaypoint (getElevations fetch flat ! i) alt (flat ! i))
          \<and> AppState.waypoints s' = AppState.waypoints s
          \<and> AppState.footprints s' = AppState.footprints s
          \<and> originalFootprints s' = originalFootprints s)
       \<and> (\<forall>a wp. mergedWaypoint None a wp = wp)
       \<and> (\<forall>e a wp. mergedWaypoint (Some e) a wp
            = wp\<lparr>Waypoint.altitude := toFixed2Number (binary64 (e + a))\<rparr>)
       \<and> (\<forall>x. \<exists>n :: int. toFixed2Number x = binary64 (of_int n / 100)
            \<and> \<bar>of_int n / 100 - x\<bar> \<le> 1 / 200)"
  using terrain_merge_state [OF assms, of fetch] toFixed2Number_nearest
  by simp

lemma sample_elevations:
  "getElevations sampleTerrain (concat (FlightPlanResult.waypoints samplePlan))
     = [Some (49 / 4), None, Some 7, None, None, Some (- (7 / 2))]"
proof (rule nth_equalityI)
  let ?flat = "concat (FlightPlanResult.waypoints samplePlan)"
  have n: "length ?flat = 6" by (simp add: sample_flat sampleByLine_def)
  have b: "batchElevations sampleTerrain ?flat 0
      = [Some (49 / 4), None, Some 7, None, None, Some (- (7 / 2))]"
    by (simp add: batchElevations_def sampleTerrain_def n)
  show l: "length (getElevations sampleTerrain ?flat)
      = length [Some (49 / 4), None, Some 7, None, None, Some (- (7 / 2 :: real))]"
    using getElevations_length [of sampleTerrain ?flat] n by simp
  fix j assume "j < length (getElevations sampleTerrain ?flat)"
  then have j: "j < 6" using l by simp
  then have "j div 50 = 0" "j mod 50 = j" by simp_all
  moreover have "getElevations sampleTerrain ?flat ! j
      = batchElevations sampleTerrain ?flat (50 * (j div 50)) ! (j mod 50)"
    using getElevations_nth [of sampleTerrain ?flat] j n by simp
  ultimately show "getElevations sampleTerrain ?flat ! j
      = [Some (49 / 4), None, Some 7, None, None, Some (- (7 / 2))] ! j"
    by (simp only: mult_zero_right b)
qed

lemma sample_rounding:
  "toFixed2Number (binary64 (449 / 4)) = 449 / 4"
  "toFixed2Number (binary64 107) = 107"
  "toFixed2Number (binary64 (193 / 2)) = 193 / 2"
proof -
  have b: "binary64 (449 / 4) = 449 / 4" "binary64 107 = 107" "binary64 (193 / 2) = 193 / 2"
    by (simp_all add: binary64_eval)
  have "hundredths (449 / 4) = 11225" "hundredths 107 = 10700" "hundredths (193 / 2) = 9650"
    by (simp_all add: hundredths_def)
  then show "toFixed2Number (binary64 (449 / 4)) = 449 / 4"
    "toFixed2Number (binary64 107) = 107"
    "toFixed2Number (binary64 (193 / 2)) = 193 / 2"
    unfolding b by (simp_all add: toFixed2Number_def b)
qed

text \<open>
  Two sums that fall next to a decimal tie: with an altitude of 100 the doubles nearest
  to 0.005 and to 0.015 give the altitudes 100 and 100.02.
\<close>

lemma rounding_near_ties:
  "toFixed2Number (binary64 (5764607523034235 / 1152921504606846976 + 100)) = 100"
  "toFixed2Number (binary64 (1080863910568919 / 72057594037927936 + 100))
     = binary64 (5001 / 50)"
proof -
  have b: "binary64 (5764607523034235 / 1152921504606846976 + 100)
             = 879653282685911 / 8796093022208"
    "binary64 (1080863910568919 / 72057594037927936 + 100)
             = 7037929948929065 / 70368744177664"
    "binary64 100 = 100"
    by (simp_all add: binary64_eval)
  have "hundredths (879653282685911 / 8796093022208) = 10000"
    "hundredths (7037929948929065 / 70368744177664) = 10002"
    by (simp_all add: hundredths_def)
  then show "toFixed2Number (binary64 (5764607523034235 / 1152921504606846976 + 100)) = 100"
    "toFixed2Number (binary64 (1080863910568919 / 72057594037927936 + 100))
       = binary64 (5001 / 50)"
    unfolding b by (simp_all add: toFixed2Number_def b)
qed

lemma map_altitude_formatted:
  "map Waypoint.altitude (formattedWaypoints t fp final)
     = replicate (length final) (FlightParams.altitude fp)"
  by (simp add: formattedWaypoints_def formatWaypoint_def Let_def comp_def map_replicate_const)

text \<open>
  The sample plan with elevations 12.25, unknown, 7, unknown, unknown and -3.5 under
  an altitude of 100 meters.
\<close>

theorem terrain_merge_witness:
  "\<exists>s'. handleFetchTerrainData sampleTerrain sampleState = Some s'
     \<and> map length (originalWaypoints s') = [3, 3]
     \<and> map Waypoint.altitude (concat (originalWaypoints s'))
         = [449 / 4, 100, 107, 100, 100, 193 / 2]"
proof -
  let ?flat = "concat (FlightPlanResult.waypoints samplePlan)"
  have ow: "originalWaypoints sampleState = FlightPlanResult.waypoints samplePlan"
    and alt: "FlightParams.altitude (flightParams sampleState) = 100"
    by (simp_all add: sampleState_def sampleFlight_def)
  have n: "length ?flat = 6" by (simp add: sample_flat sampleByLine_def)
  have u: "[0..<6] = [0, 1, 2, 3, 4, 5]" by (simp add: upt_rec)
  have a: "map Waypoint.altitude ?flat = replicate 6 100"
    by (simp add: sample_flat map_altitude_formatted) (simp add: sampleByLine_def sampleFlight_def)
  from terrain_merge [OF refl refl, of sampleTerrain sampleState]
  obtain s' where s: "handleFetchTerrainData sampleTerrain sampleState = Some s'"
    and l: "map length (originalWaypoints s') = map length (originalWaypoints sampleState)"
    and c: "length (concat (originalWaypoints s')) = length ?flat"
    and m: "\<forall>i < length ?flat. concat (originalWaypoints s') ! i
              = mergedWaypoint (getElevations sampleTerrain ?flat ! i) 100 (?flat ! i)"
    unfolding ow alt by blast
  have "concat (originalWaypoints s')
      = map (\<lambda>i. mergedWaypoint (getElevations sampleTerrain ?flat ! i) 100 (?flat ! i)) [0..<6]"
    using c m n by (simp add: list_eq_iff_nth_eq)
  then have "map Waypoint.altitude (concat (originalWaypoints s'))
      = [449 / 4, Waypoint.altitude (?flat ! 1), 107, Waypoint.altitude (?flat ! 3),
         Waypoint.altitude (?flat ! 4), 193 / 2]"
    unfolding u sample_elevations by (simp add: sample_rounding)
  moreover have "Waypoint.altitude (?flat ! 1) = 100" "Waypoint.altitude (?flat ! 3) = 100"
    "Waypoint.altitude (?flat ! 4) = 100"
    using arg_cong [OF a, of "\<lambda>xs. xs ! 1"] arg_cong [OF a, of "\<lambda>xs. xs ! 3"]
      arg_cong [OF a, of "\<lambda>xs. xs ! 4"] n
    by simp_all
  ultimately have r: "map Waypoint.altitude (concat (originalWaypoints s'))
      = [449 / 4, 100, 107, 100, 100, 193 / 2]"
    by (simp only:)
  have k: "map length (originalWaypoints s') = [3, 3]"
    using l unfolding ow sample_line_lengths .
  from s k r show ?thesis by (intro exI [of _ s'] conjI)
qed

section \<open>Mission statistics\<close>

lemma consecutive_pairs_upt:
  "map (\<lambda>i. f (wps ! i) (wps ! (i + 1))) [0..<length wps - 1]
     = map (\<lambda>(a, b). f a b) (zip wps (tl wps))"
proof (rule nth_equalityI)
  show "length (map (\<lambda>i. f (wps ! i) (wps ! (i + 1))) [0..<length wps - 1])
      = length (map (\<lambda>(a, b). f a b) (zip wps (tl wps)))"
    by simp
next
  fix i assume "i < length (map (\<lambda>i. f (wps ! i) (wps ! (i + 1))) [0..<length wps - 1])"
  then have i: "i < length wps - 1" by simp
  then show "map (\<lambda>i. f (wps ! i) (wps ! (i + 1))) [0..<length wps - 1] ! i
      = map (\<lambda>(a, b). f a b) (zip wps (tl wps)) ! i"
    by (simp add: nth_tl)
qed

lemma foldl_map_arg: "foldl (\<lambda>acc x. g acc (h x)) a xs = foldl g a (map h xs)"
  by (induction xs arbitrary: a) simp_all

lemma totalDistanceOf_pathLength: "totalDistanceOf t wps = pathLength t wps"
proof (cases "length wps > 1")
  case True
  let ?d = "\<lambda>a b. distance t (positionOf a) (positionOf b)"
  have "totalDistanceOf t wps
      = foldl (\<lambda>acc i. binary64 (acc + ?d (wps ! i) (wps ! (i + 1)))) 0 [0..<length wps - 1]"
    using True by (simp add: totalDistanceOf_def positionOf_def)
  also have "\<dots> = foldl (\<lambda>acc d. binary64 (acc + d)) 0
                     (map (\<lambda>i. ?d (wps ! i) (wps ! (i + 1))) [0..<length wps - 1])"
    by (rule foldl_map_arg)
  also have "\<dots> = foldl (\<lambda>acc d. binary64 (acc + d)) 0
                     (map (\<lambda>(a, b). ?d a b) (zip wps (tl wps)))"
    by (rule arg_cong [OF consecutive_pairs_upt])
  also have "\<dots> = foldl (\<lambda>acc p. binary64 (acc + (case p of (a, b) \<Rightarrow> ?d a b))) 0
                     (zip wps (tl wps))"
    by (rule foldl_map_arg [symmetric])
  also have "\<dots> = pathLength t wps"
    unfolding pathLength_def by (rule arg_cong [where f = "\<lambda>g. foldl g 0 (zip wps (tl wps))"])
      (simp add: fun_eq_iff split: prod.splits)
  finally show ?thesis .
next
  case False
  then have z: "zip wps (tl wps) = []" by (cases wps) auto
  show ?thesis unfolding pathLength_def z using False by (simp add: totalDistanceOf_def)
qed

lemma foldl_binary64_nonneg:
  "0 \<le> a \<Longrightarrow> \<forall>x \<in> set xs. 0 \<le> f x \<Longrightarrow> 0 \<le> foldl (\<lambda>acc x. binary64 (acc + f x)) a xs"
proof (induction xs arbitrary: a)
  case Nil
  then show ?case by simp
next
  case (Cons x xs)
  then have "0 \<le> a + f x" by simp
  then have "0 \<le> binary64 (a + f x)" by (rule binary64_nonneg)
  then show ?case using Cons.IH [of "binary64 (a + f x)"] Cons.prems(2) by simp
qed

lemma pathLength_nonneg:
  assumes "\<forall>p q. 0 \<le> distance t p q"
  shows "0 \<le> pathLength t wps"
proof -
  have "0 \<le> foldl (\<lambda>acc x. binary64 (acc + (case x of (a, b) \<Rightarrow>
            distance t (positionOf a) (positionOf b)))) 0 (zip wps (tl wps))"
    using assms by (intro foldl_binary64_nonneg) (auto simp: positionOf_def split: prod.splits)
  moreover have "(\<lambda>acc x. binary64 (acc + (case x of (a, b) \<Rightarrow>
            distance t (positionOf a) (positionOf b))))
      = (\<lambda>acc (a, b). binary64 (acc + distance t (positionOf a) (positionOf b)))"
    by (simp add: fun_eq_iff split: prod.splits)
  ultimately show ?thesis by (simp add: pathLength_def)
qed

lemma intToString_nat: "0 \<le> i \<Longrightarrow> intToString i = natToString (nat i)"
  by (simp add: intToString_def)

lemma flightTimeOf_floor:
  assumes "0 < spd" and "0 \<le> meters" and "T = binary64 (meters / spd)"
  shows "flightTimeOf meters spd =
           padStart2 (natToString (nat \<lfloor>binary64 (T / 60)\<rfloor>)) @ '':''
             @ padStart2 (natToString (nat (\<lfloor>T\<rfloor> mod 60)))"
    and "0 \<le> T"
proof -
  have "0 \<le> meters / spd" using assms(1,2) by simp
  then show T: "0 \<le> T" unfolding assms(3) by (rule binary64_nonneg)
  have m: "\<lfloor>T / 60\<rfloor> = \<lfloor>T\<rfloor> div 60"
    using floor_divide_real_eq_div [of 60 T] by simp
  have "\<not> T / 60 < 0" using T by simp
  then have "jsRemainder T 60 = T - of_int (60 * \<lfloor>T / 60\<rfloor>)"
    by (simp add: jsRemainder_def)
  then have "\<lfloor>jsRemainder T 60\<rfloor> = \<lfloor>T\<rfloor> - 60 * \<lfloor>T / 60\<rfloor>"
    by (simp only: floor_diff_of_int)
  also have "\<dots> = \<lfloor>T\<rfloor> mod 60" unfolding m by (simp add: minus_mult_div_eq_mod)
  finally have s: "\<lfloor>jsRemainder T 60\<rfloor> = \<lfloor>T\<rfloor> mod 60" .
  have "0 \<le> T / 60" using T by simp
  then have "0 \<le> binary64 (T / 60)" by (rule binary64_nonneg)
  then have nn: "0 \<le> \<lfloor>binary64 (T / 60)\<rfloor>" by simp
  have "0 \<le> \<lfloor>T\<rfloor>" using T by simp
  then have ns: "0 \<le> \<lfloor>T\<rfloor> mod 60" by simp
  show "flightTimeOf meters spd =
           padStart2 (natToString (nat \<lfloor>binary64 (T / 60)\<rfloor>)) @ '':''
             @ padStart2 (natToString (nat (\<lfloor>T\<rfloor> mod 60)))"
    using assms(1) nn ns
    by (simp add: flightTimeOf_def Let_def assms(3) [symmetric] s intToString_nat)
qed

lemma padStart2_two_digits:
  "n < 100 \<Longrightarrow> padStart2 (natToString n) = [digitChar (n div 10), digitChar (n mod 10)]"
proof (cases "n < 10")
  case True
  then show ?thesis by (simp add: padStart2_def natToString.simps [of n] digitChar_def)
next
  case False
  assume "n < 100"
  then have "n div 10 < 10" by simp
  then show ?thesis
    using False by (simp add: padStart2_def natToString.simps [of n] natToString.simps [of "n div 10"])
qed

lemma toFixed2_nonneg:
  assumes "0 \<le> x"
  shows "toFixed2 x = natToString (hundredths x div 100) @ ''.''
           @ [digitChar (hundredths x mod 100 div 10), digitChar (hundredths x mod 10)]"
proof -
  have "hundredths x mod 100 < 100" by simp
  from padStart2_two_digits [OF this] show ?thesis
    using assms by (simp add: toFixed2_def Let_def mod_mod_cancel)
qed

lemma statsEffect_stats:
  "stats (statsEffect t s) =
     (if AppState.waypoints s = [] \<or> originalWaypoints s = [] then None
      else Some \<lparr> totalWaypoints = length (AppState.waypoints s),
                  flightLines = length (originalWaypoints s),
                  flightTime = flightTimeOf (totalDistanceOf t (AppState.waypoints s))
                                 (FlightParams.speed (flightParams s)),
                  totalDistance = toFixed2 (binary64 (totalDistanceOf t (AppState.waypoints s) / 1000)),
                  photoCount = length (AppState.waypoints s),
                  dataVolume = toFixed2 (binary64 (binary64 (binary64
                                 (real (length (AppState.waypoints s)) * imageWidth (cameraParams s))
                                 * imageHeight (cameraParams s)) / 1000000000)) \<rparr>)"
  by (simp add: statsEffect_def Let_def)

text \<open>
  Claim C8. For a positive speed and distances that are not negative: there are no
  stats exactly when there is no active waypoint or no canonical line. Otherwise, every
  sum, product and quotient being the binary64 one: the total distance is the sum of the
  distances between consecutive active waypoints, divided by 1000 and rendered with two
  decimals; the flight time is that sum divided by the speed, shown as its sixtieth
  floored to whole minutes and its whole seconds modulo 60, with at least two digits
  each; the photo count is the number of active waypoints; the data volume is that number
  times the image width times the image height, divided by \<open>10^9\<close> and rendered with two
  decimals. Rendering a number that is not negative with two decimals gives the digits
  of its nearest hundredth, the upper one at a tie.
\<close>

theorem mission_stats:
  assumes "0 < FlightParams.speed (flightParams s)" and "\<forall>p q. 0 \<le> distance t p q"
    and "wps = AppState.waypoints s"
    and "meters = pathLength t wps"
    and "secs = binary64 (meters / FlightParams.speed (flightParams s))"
    and "pixels = binary64 (binary64 (real (length wps) * imageWidth (cameraParams s))
                              * imageHeight (cameraParams s))"
  shows "(stats (statsEffect t s) = None \<longleftrightarrow> wps = [] \<or> originalWaypoints s = [])
       \<and> (wps \<noteq> [] \<and> originalWaypoints s \<noteq> [] \<longrightarrow>
            stats (statsEffect t s) = Some
              \<lparr> totalWaypoints = length wps,
                flightLines = length (originalWaypoints s),
                flightTime = padStart2 (natToString (nat \<lfloor>binary64 (secs / 60)\<rfloor>)) @ '':''
                               @ padStart2 (natToString (nat (\<lfloor>secs\<rfloor> mod 60))),
                totalDistance = toFixed2 (binary64 (meters / 1000)),
                photoCount = length wps,
                dataVolume = toFixed2 (binary64 (pixels / 10 ^ 9)) \<rparr>)
       \<and> 0 \<le> meters \<and> 0 \<le> secs
       \<and> (\<forall>x \<ge> 0. toFixed2 x = natToString (hundredths x div 100) @ ''.''
                @ [digitChar (hundredths x mod 100 div 10), digitChar (hundredths x mod 10)]
              \<and> real (hundredths x) / 100 - 1 / 200 \<le> x
              \<and> x < real (hundredths x) / 100 + 1 / 200)
       \<and> (\<forall>n < 100. padStart2 (natToString n) = [digitChar (n div 10), digitChar (n mod 10)])"
proof -
  have m: "totalDistanceOf t wps = meters"
    by (simp add: assms(4) totalDistanceOf_pathLength)
  have nn: "0 \<le> meters" using assms(2,4) by (simp add: pathLength_nonneg)
  note ft = flightTimeOf_floor [OF assms(1) nn assms(5)]
  have a: "stats (statsEffect t s) = None \<longleftrightarrow> wps = [] \<or> originalWaypoints s = []"
    by (simp add: statsEffect_stats assms(3))
  have b: "wps \<noteq> [] \<and> originalWaypoints s \<noteq> [] \<longrightarrow>
            stats (statsEffect t s) = Some
              \<lparr> totalWaypoints = length wps,
                flightLines = length (originalWaypoints s),
                flightTime = padStart2 (natToString (nat \<lfloor>binary64 (secs / 60)\<rfloor>)) @ '':''
                               @ padStart2 (natToString (nat (\<lfloor>secs\<rfloor> mod 60))),
                totalDistance = toFixed2 (binary64 (meters / 1000)),
                photoCount = length wps,
                dataVolume = toFixed2 (binary64 (pixels / 10 ^ 9)) \<rparr>"
    unfolding statsEffect_stats assms(3) [symmetric] m ft(1) assms(6) by simp
  have c: "\<forall>x \<ge> 0. toFixed2 x = natToString (hundredths x div 100) @ ''.''
                @ [digitChar (hundredths x mod 100 div 10), digitChar (hundredths x mod 10)]
              \<and> real (hundredths x) / 100 - 1 / 200 \<le> x
              \<and> x < real (hundredths x) / 100 + 1 / 200"
  proof (intro allI impI conjI)
    fix x :: real assume x: "0 \<le> x"
    then show "toFixed2 x = natToString (hundredths x div 100) @ ''.''
                @ [digitChar (hundredths x mod 100 div 10), digitChar (hundredths x mod 10)]"
      by (rule toFixed2_nonneg)
    have "0 \<le> x * 100 + 1 / 2" using x by simp
    then have "real (hundredths x) = of_int \<lfloor>x * 100 + 1 / 2\<rfloor>"
      using x by (simp add: hundredths_def)
    then show "real (hundredths x) / 100 - 1 / 200 \<le> x"
      and "x < real (hundredths x) / 100 + 1 / 200"
      by linarith+
  qed
  have d: "\<forall>n < 100. padStart2 (natToString n) = [digitChar (n div 10), digitChar (n mod 10)]"
    by (simp add: padStart2_two_digits)
  from a b nn ft(2) c d show ?thesis by (intro conjI)
qed

lemma sample_strings:
  "padStart2 (natToString 0) = ''00''" "padStart2 (natToString 15) = ''15''"
  "padStart2 (natToString 25) = ''25''"
  "toFixed2 (binary64 (3 / 20)) = ''0.15''" "toFixed2 (binary64 (3 / 125)) = ''0.02''"
  "toFixed2 (binary64 (9 / 200)) = ''0.04''" "toFixed2 (binary64 (3 / 200)) = ''0.01''"
proof -
  show "padStart2 (natToString 0) = ''00''" "padStart2 (natToString 15) = ''15''"
    "padStart2 (natToString 25) = ''25''"
    by (simp_all add: padStart2_two_digits digitChar_def)
  have b: "binary64 (3 / 20) = 5404319552844595 / 36028797018963968"
    "binary64 (3 / 125) = 3458764513820541 / 144115188075855872"
    "binary64 (9 / 200) = 3242591731706757 / 72057594037927936"
    "binary64 (3 / 200) = 1080863910568919 / 72057594037927936"
    by (simp_all add: binary64_eval)
  have p: "(0::real) \<le> 5404319552844595 / 36028797018963968"
    "(0::real) \<le> 3458764513820541 / 144115188075855872"
    "(0::real) \<le> 3242591731706757 / 72057594037927936"
    "(0::real) \<le> 1080863910568919 / 72057594037927936"
    by simp_all
  have "hundredths (5404319552844595 / 36028797018963968) = 15"
    "hundredths (3458764513820541 / 144115188075855872) = 2"
    "hundredths (3242591731706757 / 72057594037927936) = 4"
    "hundredths (1080863910568919 / 72057594037927936) = 1"
    by (simp_all add: hundredths_def)
  then show "toFixed2 (binary64 (3 / 20)) = ''0.15''" "toFixed2 (binary64 (3 / 125)) = ''0.02''"
    "toFixed2 (binary64 (9 / 200)) = ''0.04''" "toFixed2 (binary64 (3 / 200)) = ''0.01''"
    unfolding b
    by (simp_all add: toFixed2_nonneg [OF p(1)] toFixed2_nonneg [OF p(2)]
        toFixed2_nonneg [OF p(3)] toFixed2_nonneg [OF p(4)] natToString.simps [of 0] digitChar_def)
qed

text \<open>
  Two active waypoints 150 meters apart at 10 meters per second with images of 4000
  by 3000 pixels, and the same state without active waypoints.
\<close>

theorem mission_stats_witness:
  "0 < FlightParams.speed (flightParams statsState)
   \<and> (\<forall>p q. 0 \<le> distance planarTurf p q)
   \<and> pathLength planarTurf (AppState.waypoints statsState) = 150
   \<and> stats (statsEffect planarTurf statsState) = Some
        \<lparr> totalWaypoints = 2, flightLines = 2, flightTime = ''00:15'',
          totalDistance = ''0.15'', photoCount = 2, dataVolume = ''0.02'' \<rparr>
   \<and> stats (statsEffect planarTurf (statsState\<lparr>AppState.waypoints := []\<rparr>)) = None"
proof -
  have sp: "0 < FlightParams.speed (flightParams statsState)"
    "0 < FlightParams.speed (flightParams (statsState\<lparr>AppState.waypoints := []\<rparr>))"
    by (simp_all add: statsState_def sampleState_def sampleFlight_def)
  have d: "\<forall>p q. 0 \<le> distance planarTurf p q" by (simp add: planarTurf_def)
  have w: "AppState.waypoints statsState = sampleActive" by (simp add: statsState_def)
  have b: "binary64 150 = 150" "binary64 15 = 15" "binary64 (1 / 4) = 1 / 4"
    "binary64 8000 = 8000" "binary64 24000000 = 24000000"
    by (simp_all add: binary64_eval)
  have p: "pathLength planarTurf sampleActive = 150"
    by (simp add: pathLength_def sampleActive_def sampleWaypoint_def positionOf_def
        planarTurf_def b)
  have o: "originalWaypoints statsState \<noteq> []" "length (originalWaypoints statsState) = 2"
    using sample_line_lengths arg_cong [OF sample_line_lengths, of length]
    by (auto simp: statsState_def sampleState_def)
  have v: "FlightParams.speed (flightParams statsState) = 10"
    "imageWidth (cameraParams statsState) = 4000" "imageHeight (cameraParams statsState) = 3000"
    by (simp_all add: statsState_def sampleState_def sampleFlight_def sampleCamera_def)
  have f: "\<lfloor>1 / 4 :: real\<rfloor> = 0" by simp
  note m = mission_stats [OF sp(1) d refl refl refl refl]
  note e = mission_stats [OF sp(2) d refl refl refl refl]
  have ne: "sampleActive \<noteq> []" by (simp add: sampleActive_def)
  have l: "length sampleActive = 2" by (simp add: sampleActive_def)
  from m ne o have "stats (statsEffect planarTurf statsState) = Some
        \<lparr> totalWaypoints = 2, flightLines = 2, flightTime = ''00:15'',
          totalDistance = ''0.15'', photoCount = 2, dataVolume = ''0.02'' \<rparr>"
    unfolding w p v l by (simp add: sample_strings b f)
  moreover from e have "stats (statsEffect planarTurf (statsState\<lparr>AppState.waypoints := []\<rparr>)) = None"
    by simp
  ultimately show ?thesis using sp(1) d p w by simp
qed

text \<open>
  Quotients that fall next to a decimal tie: three active waypoints 75 meters apart at
  the speed nearest to 0.1 meters per second, with images of 5000 by 3000 pixels. The
  flight takes 25 minutes, and 0.045 gigapixels are shown as 0.04; one such photo is
  shown as 0.01 gigapixels.
\<close>

lemma stats_near_ties:
  "stats (statsEffect planarTurf tieState) = Some
     \<lparr> totalWaypoints = 3, flightLines = 2, flightTime = ''25:00'',
       totalDistance = ''0.15'', photoCount = 3, dataVolume = ''0.04'' \<rparr>"
  "toFixed2 (binary64 (binary64 (binary64 (1 * 5000) * 3000) / 1000000000)) = ''0.01''"
proof -
  have b: "binary64 75 = 75" "binary64 150 = 150" "binary64 15000 = 15000"
    "binary64 45000000 = 45000000" "binary64 5000 = 5000" "binary64 15000000 = 15000000"
    "binary64 (150 / (3602879701896397 / 36028797018963968)) = 1500"
    "binary64 (1500 / 60) = 25"
    by (simp_all add: binary64_eval)
  have u: "[0..<2] = [0, 1]" by (simp add: upt_rec)
  have t: "totalDistanceOf planarTurf (AppState.waypoints tieState) = 150"
    by (simp add: totalDistanceOf_def tieState_def sampleWaypoint_def planarTurf_def u b)
  have r: "jsRemainder 1500 60 = 0" by (simp add: jsRemainder_def)
  have f: "flightTimeOf 150 (3602879701896397 / 36028797018963968) = ''25:00''"
    unfolding flightTimeOf_def Let_def b r by (simp add: intToString_def sample_strings)
  have o: "length (originalWaypoints tieState) = 2"
    using arg_cong [OF sample_line_lengths, of length]
    by (simp add: tieState_def sampleState_def)
  have ne: "originalWaypoints tieState \<noteq> []" using o by auto
  have v: "FlightParams.speed (flightParams tieState) = 3602879701896397 / 36028797018963968"
    "imageWidth (cameraParams tieState) = 5000" "imageHeight (cameraParams tieState) = 3000"
    "length (AppState.waypoints tieState) = 3" "AppState.waypoints tieState \<noteq> []"
    by (simp_all add: tieState_def)
  show "stats (statsEffect planarTurf tieState) = Some
     \<lparr> totalWaypoints = 3, flightLines = 2, flightTime = ''25:00'',
       totalDistance = ''0.15'', photoCount = 3, dataVolume = ''0.04'' \<rparr>"
    unfolding statsEffect_stats t v o f using ne v(5) by (simp add: b sample_strings)
  show "toFixed2 (binary64 (binary64 (binary64 (1 * 5000) * 3000) / 1000000000)) = ''0.01''"
    by (simp add: b sample_strings)
qed

end
